theory Spec2Isabelle
  imports Main "HOL-Library.AList"
begin

section \<open>Common notions\<close>

text \<open>
  The calls are modelled one at a time. A Go \<^verbatim>\<open>time.Time\<close> is an instant counted
  in nanoseconds from the zero instant of the type, so \<^verbatim>\<open>t.IsZero()\<close> is \<open>t = 0\<close>,
  \<^verbatim>\<open>a.After(b)\<close> is \<open>b < a\<close> and \<^verbatim>\<open>a.Before(b)\<close> is \<open>a < b\<close>. A
  \<^verbatim>\<open>time.Duration\<close> is a signed number of nanoseconds. Every operation receives the
  reading of \<^verbatim>\<open>time.Now()\<close> as an argument; the readings one call takes in a row are
  one argument, except where the code compares two of them (\<^verbatim>\<open>GetTTL\<close>, and
  \<^verbatim>\<open>Get\<close> of the file provider), which then are two arguments.
  A Go map is an association list with distinct keys; the order of the list is not the
  order in which \<^verbatim>\<open>range\<close> visits the map, which is passed as a function where it matters.
\<close>

type_synonym time = int
type_synonym duration = int

text \<open>
  A \<^verbatim>\<open>time.Duration\<close> and a Unix timestamp are \<^verbatim>\<open>int64\<close>. Go's arithmetic on
  \<^verbatim>\<open>int64\<close> wraps around (\<open>wrap64\<close> of the exact result); the difference of two
  instants, \<^verbatim>\<open>Time.Sub\<close> and so \<^verbatim>\<open>time.Until\<close>, is the exact difference held to the
  range of a \<^verbatim>\<open>Duration\<close> (\<open>sat64\<close>).
\<close>

definition MaxInt64 :: int where
  "MaxInt64 = 9223372036854775807"

definition MinInt64 :: int where
  "MinInt64 = - 9223372036854775808"


definition sat64 :: "int \<Rightarrow> int" where
  "sat64 x = (if x > MaxInt64 then MaxInt64 else if x < MinInt64 then MinInt64 else x)"

definition IsZero :: "time \<Rightarrow> bool" where
  "IsZero t = (t = 0)"

definition After :: "time \<Rightarrow> time \<Rightarrow> bool" where
  "After a b = (b < a)"

definition Before :: "time \<Rightarrow> time \<Rightarrow> bool" where
  "Before a b = (a < b)"

text \<open>The error values of package gcache; a wrapped error keeps only its code.\<close>

datatype gerror =
    ErrCacheNotFound
  | ErrCacheKeyInvalid
  | CodeCacheGetError
  | CodeCacheSetError

section \<open>Package providers: the in-process provider (memory.go)\<close>

record 'v memoryItem =
  mi_key :: string
  mi_value :: 'v
  mi_expiration :: time
  mi_ttl :: duration
  mi_accessTime :: time
  mi_accessCount :: int
  mi_createTime :: time

record 'v MemoryCache =
  items :: "(string \<times> 'v memoryItem) list"
  config_MaxSize :: int
  config_EvictionPolicy :: string
  stopChan_closed :: bool
  stats_hits :: int
  stats_misses :: int
  stats_sets :: int
  stats_deletes :: int
  stats_evictions :: int
  stats_expirations :: int
  stats_currentItemCount :: int

definition isExpired :: "time \<Rightarrow> 'v memoryItem \<Rightarrow> bool" where
  "isExpired now i = (if IsZero (mi_expiration i) then False else After now (mi_expiration i))"

definition EvictionLRU :: string where "EvictionLRU = ''LRU''"
definition EvictionLFU :: string where "EvictionLFU = ''LFU''"
definition EvictionFIFO :: string where "EvictionFIFO = ''FIFO''"

definition DefaultMemoryCacheSize :: int where "DefaultMemoryCacheSize = 10000"

text \<open>
  \<^verbatim>\<open>NewMemoryCache\<close>: a configured size that is not positive is replaced by the default,
  an unsupported policy by LRU; the table starts empty and the stop channel open.
\<close>

definition NewMemoryCache :: "int \<Rightarrow> string \<Rightarrow> 'v MemoryCache" where
  "NewMemoryCache maxSize pol =
     \<lparr> items = [],
       config_MaxSize = (if maxSize > 0 then maxSize else DefaultMemoryCacheSize),
       config_EvictionPolicy =
         (let p = (if pol \<noteq> [] then pol else EvictionLRU)
          in if p = EvictionLRU \<or> p = EvictionLFU \<or> p = EvictionFIFO then p else EvictionLRU),
       stopChan_closed = False,
       stats_hits = 0, stats_misses = 0, stats_sets = 0, stats_deletes = 0,
       stats_evictions = 0, stats_expirations = 0, stats_currentItemCount = 0 \<rparr>"

text \<open>
  The three scans of \<^verbatim>\<open>evictOne\<close>: each keeps the best value seen so far and the key
  that had it, starting from the zero time (or the count \<open>-1\<close>) and the empty key.
\<close>

fun scanAccessTime :: "(string \<times> 'v memoryItem) list \<Rightarrow> time \<times> string \<Rightarrow> time \<times> string" where
  "scanAccessTime [] acc = acc"
| "scanAccessTime ((k, v) # xs) (oldest, keyToEvict) =
     scanAccessTime xs
       (if IsZero oldest \<or> Before (mi_accessTime v) oldest then (mi_accessTime v, k)
        else (oldest, keyToEvict))"

fun scanAccessCount :: "(string \<times> 'v memoryItem) list \<Rightarrow> int \<times> string \<Rightarrow> int \<times> string" where
  "scanAccessCount [] acc = acc"
| "scanAccessCount ((k, v) # xs) (leastCount, keyToEvict) =
     scanAccessCount xs
       (if leastCount = -1 \<or> mi_accessCount v < leastCount then (mi_accessCount v, k)
        else (leastCount, keyToEvict))"

fun scanCreateTime :: "(string \<times> 'v memoryItem) list \<Rightarrow> time \<times> string \<Rightarrow> time \<times> string" where
  "scanCreateTime [] acc = acc"
| "scanCreateTime ((k, v) # xs) (oldest, keyToEvict) =
     scanCreateTime xs
       (if IsZero oldest \<or> Before (mi_createTime v) oldest then (mi_createTime v, k)
        else (oldest, keyToEvict))"

text \<open>
  \<open>victim rng c\<close> is the key \<^verbatim>\<open>evictOne\<close> picks; \<open>rng\<close> gives the order in which
  \<^verbatim>\<open>range c.items\<close> visits the table.
\<close>

definition victim ::
  "((string \<times> 'v memoryItem) list \<Rightarrow> (string \<times> 'v memoryItem) list) \<Rightarrow> 'v MemoryCache \<Rightarrow> string" where
  "victim rng c =
     (if config_EvictionPolicy c = EvictionLRU then snd (scanAccessTime (rng (items c)) (0, []))
      else if config_EvictionPolicy c = EvictionLFU then snd (scanAccessCount (rng (items c)) (-1, []))
      else if config_EvictionPolicy c = EvictionFIFO then snd (scanCreateTime (rng (items c)) (0, []))
      else snd (scanAccessTime (rng (items c)) (0, [])))"

definition evictOne ::
  "((string \<times> 'v memoryItem) list \<Rightarrow> (string \<times> 'v memoryItem) list) \<Rightarrow> 'v MemoryCache \<Rightarrow> 'v MemoryCache" where
  "evictOne rng c =
     (if items c = [] then c
      else let keyToEvict = victim rng c in
        if keyToEvict \<noteq> [] then
          c\<lparr> items := AList.delete keyToEvict (items c),
             stats_evictions := stats_evictions c + 1,
             stats_currentItemCount := stats_currentItemCount c - 1 \<rparr>
        else c)"

text \<open>\<^verbatim>\<open>Set\<close> returns its error (if any) and the provider after the call.\<close>

definition MemoryCache_Set ::
  "((string \<times> 'v memoryItem) list \<Rightarrow> (string \<times> 'v memoryItem) list) \<Rightarrow> time \<Rightarrow>
   string \<Rightarrow> 'v \<Rightarrow> duration \<Rightarrow> 'v MemoryCache \<Rightarrow> gerror option \<times> 'v MemoryCache" where
  "MemoryCache_Set rng now k v ttl c =
     (if k = [] then (Some ErrCacheKeyInvalid, c)
      else
        let expiration = (if ttl > 0 then now + ttl else 0);
            item = \<lparr> mi_key = k, mi_value = v, mi_expiration = expiration, mi_ttl = ttl,
                     mi_accessTime = now, mi_accessCount = 0, mi_createTime = now \<rparr>;
            c1 = (if config_MaxSize c > 0 \<and> int (length (items c)) \<ge> config_MaxSize c
                  then (if map_of (items c) k = None then evictOne rng c else c)
                  else c);
            exists = (map_of (items c1) k \<noteq> None)
        in (None,
            c1\<lparr> items := AList.update k item (items c1),
                stats_sets := stats_sets c1 + 1,
                stats_currentItemCount :=
                  (if \<not> exists then stats_currentItemCount c1 + 1 else stats_currentItemCount c1) \<rparr>))"

text \<open>\<^verbatim>\<open>Get\<close> returns the value or the error, and the provider after the call.\<close>

definition MemoryCache_Get ::
  "time \<Rightarrow> string \<Rightarrow> 'v MemoryCache \<Rightarrow> (gerror + 'v) \<times> 'v MemoryCache" where
  "MemoryCache_Get now k c =
     (if k = [] then (Inl ErrCacheKeyInvalid, c)
      else case map_of (items c) k of
        None \<Rightarrow> (Inl ErrCacheNotFound, c\<lparr> stats_misses := stats_misses c + 1 \<rparr>)
      | Some item \<Rightarrow>
          if isExpired now item then
            (Inl ErrCacheNotFound,
             c\<lparr> items := AList.delete k (items c),
                stats_expirations := stats_expirations c + 1,
                stats_misses := stats_misses c + 1,
                stats_currentItemCount := stats_currentItemCount c - 1 \<rparr>)
          else
            (Inr (mi_value item),
             c\<lparr> items := AList.update k
                           (item\<lparr> mi_accessTime := now, mi_accessCount := mi_accessCount item + 1 \<rparr>)
                           (items c),
                stats_hits := stats_hits c + 1 \<rparr>))"

definition MemoryCache_Delete :: "string \<Rightarrow> 'v MemoryCache \<Rightarrow> gerror option \<times> 'v MemoryCache" where
  "MemoryCache_Delete k c =
     (if k = [] then (Some ErrCacheKeyInvalid, c)
      else if map_of (items c) k \<noteq> None then
        (None, c\<lparr> items := AList.delete k (items c),
                  stats_deletes := stats_deletes c + 1,
                  stats_currentItemCount := stats_currentItemCount c - 1 \<rparr>)
      else (None, c))"

text \<open>
  \<^verbatim>\<open>deleteExpired\<close>, the sweep of the janitor: every key found expired is deleted and
  counted once.
\<close>

definition deleteExpired :: "time \<Rightarrow> 'v MemoryCache \<Rightarrow> 'v MemoryCache" where
  "deleteExpired now c =
     (let expiredKeys = map fst (filter (\<lambda>(k, v). isExpired now v) (items c)) in
      c\<lparr> items := filter (\<lambda>(k, v). \<not> isExpired now v) (items c),
         stats_expirations := stats_expirations c + int (length expiredKeys),
         stats_currentItemCount := stats_currentItemCount c - int (length expiredKeys) \<rparr>)"

definition MemoryCache_Flush :: "'v MemoryCache \<Rightarrow> 'v MemoryCache" where
  "MemoryCache_Flush c = c\<lparr> items := [], stats_currentItemCount := 0 \<rparr>"

text \<open>
  \<^verbatim>\<open>GetTTL\<close> reads the clock twice: once in \<^verbatim>\<open>isExpired\<close>, once in
  \<^verbatim>\<open>time.Until\<close>.
\<close>

definition MemoryCache_GetTTL ::
  "time \<Rightarrow> time \<Rightarrow> string \<Rightarrow> 'v MemoryCache \<Rightarrow> (duration \<times> gerror option) \<times> 'v MemoryCache" where
  "MemoryCache_GetTTL now now' k c =
     (if k = [] then ((0, Some ErrCacheKeyInvalid), c)
      else case map_of (items c) k of
        None \<Rightarrow> ((0, Some ErrCacheNotFound), c)
      | Some item \<Rightarrow>
          if isExpired now item then
            ((0, Some ErrCacheNotFound),
             c\<lparr> items := AList.delete k (items c),
                stats_expirations := stats_expirations c + 1,
                stats_currentItemCount := stats_currentItemCount c - 1 \<rparr>)
          else if IsZero (mi_expiration item) then ((-1, None), c)
          else
            let remaining = sat64 (mi_expiration item - now') in
            if remaining < 0 then ((0, None), c) else ((remaining, None), c))"

text \<open>
  \<^verbatim>\<open>Close\<close> closes the stop channel and empties the table. Closing a channel that is
  already closed is a run-time panic in Go.
\<close>

datatype panic = CloseOfClosedChannel

definition MemoryCache_Close :: "'v MemoryCache \<Rightarrow> panic + (gerror option \<times> 'v MemoryCache)" where
  "MemoryCache_Close c =
     (if stopChan_closed c then Inl CloseOfClosedChannel
      else Inr (None, c\<lparr> stopChan_closed := True, items := [] \<rparr>))"

text \<open>
  One round of the janitor goroutine started by \<^verbatim>\<open>startJanitor\<close>: on a tick it sweeps
  and goes on (\<open>Some\<close>); on the stop channel, which is ready only once closed, it returns
  (\<open>None\<close>).
\<close>

datatype janitor_case = Tick time | Stop

definition janitor_round :: "janitor_case \<Rightarrow> 'v MemoryCache \<Rightarrow> 'v MemoryCache option" where
  "janitor_round ev c =
     (case ev of Tick now \<Rightarrow> Some (deleteExpired now c)
      | Stop \<Rightarrow> (if stopChan_closed c then None else Some c))"

section \<open>Package gcache: the facade (baseCache)\<close>

record baseCache =
  namespace :: string
  defaultTTL :: duration

definition makeKey :: "baseCache \<Rightarrow> string \<Rightarrow> string" where
  "makeKey b k =
     (if k = [] then []
      else if namespace b = [] then k
      else namespace b @ '':'' @ k)"

text \<open>
  The slice expression \<^verbatim>\<open>nk[prefixLen+1:]\<close> of \<^verbatim>\<open>GetMulti\<close> panics when the string
  is shorter than the prefix and its colon.
\<close>

definition originalKey :: "baseCache \<Rightarrow> string \<Rightarrow> string option" where
  "originalKey b nk =
     (if namespace b \<noteq> [] then
        (if length (namespace b) + 1 \<le> length nk then Some (drop (length (namespace b) + 1) nk)
         else None)
      else Some nk)"



text \<open>
  The last loop of \<^verbatim>\<open>baseCache.GetMulti\<close>: the provider's result map, visited in the
  order \<open>result\<close>, is copied under the keys without the prefix. \<open>None\<close> is the panic of
  the slice expression.
\<close>

fun restoreKeys :: "baseCache \<Rightarrow> (string \<times> 'v) list \<Rightarrow> (string \<rightharpoonup> 'v) \<Rightarrow> (string \<rightharpoonup> 'v) option" where
  "restoreKeys b [] finalResult = Some finalResult"
| "restoreKeys b ((nk, v) # result) finalResult =
     (case originalKey b nk of
        None \<Rightarrow> None
      | Some ok \<Rightarrow> restoreKeys b result (finalResult(ok \<mapsto> v)))"

datatype 'a go_result = Panicked | Failed gerror | Returned 'a

definition baseCache_GetMulti ::
  "baseCache \<Rightarrow> (string list \<Rightarrow> 's \<Rightarrow> (gerror + (string \<times> 'v) list) \<times> 's) \<Rightarrow>
   string list \<Rightarrow> 's \<Rightarrow> (string \<rightharpoonup> 'v) go_result \<times> 's" where
  "baseCache_GetMulti b pGetMulti keys s =
     (if keys = [] then (Returned Map.empty, s)
      else if [] \<in> set keys then (Failed ErrCacheKeyInvalid, s)
      else case pGetMulti (map (makeKey b) keys) s of
             (Inl e, s') \<Rightarrow> (Failed CodeCacheGetError, s')
           | (Inr result, s') \<Rightarrow>
               (case restoreKeys b result Map.empty of
                  None \<Rightarrow> (Panicked, s')
                | Some finalResult \<Rightarrow> (Returned finalResult, s')))"

text \<open>\<^verbatim>\<open>MemoryCache.GetMulti\<close>: one \<^verbatim>\<open>Get\<close> per non-empty key, hits collected.\<close>

fun MemoryCache_GetMulti_loop ::
  "time \<Rightarrow> string list \<Rightarrow> (string \<times> 'v) list \<Rightarrow> 'v MemoryCache \<Rightarrow> (string \<times> 'v) list \<times> 'v MemoryCache" where
  "MemoryCache_GetMulti_loop now [] result c = (result, c)"
| "MemoryCache_GetMulti_loop now (k # keys) result c =
     (if k = [] then MemoryCache_GetMulti_loop now keys result c
      else case MemoryCache_Get now k c of
             (Inr v, c') \<Rightarrow> MemoryCache_GetMulti_loop now keys (AList.update k v result) c'
           | (Inl e, c') \<Rightarrow> MemoryCache_GetMulti_loop now keys result c')"

definition MemoryCache_GetMulti ::
  "time \<Rightarrow> string list \<Rightarrow> 'v MemoryCache \<Rightarrow> (gerror + (string \<times> 'v) list) \<times> 'v MemoryCache" where
  "MemoryCache_GetMulti now keys c =
     (case MemoryCache_GetMulti_loop now keys [] c of (result, c') \<Rightarrow> (Inr result, c'))"

section \<open>Package cache: the in-process adapter, its policies and its lock\<close>

text \<open>
  The values of package cache are Go interface values; the lock stores an \<^verbatim>\<open>int64\<close>
  among them, and \<^verbatim>\<open>item.value == l.value\<close> holds only for a stored \<^verbatim>\<open>int64\<close> of the
  same number. Calls to the event listeners and the \<^verbatim>\<open>LastUpdate\<close> stamp of the
  statistics are not part of the model.
\<close>

datatype 'v any = AnyInt64 int | AnyValue 'v

datatype cache_error =
    ErrNotFound
  | ErrInvalidValue
  | ErrCannotAssign
  | ErrLockAlreadyExists
  | ErrLockNotFoundOrValueMismatch
  | ErrReadCacheFile
  | ErrUnmarshalCacheItem
  | ErrAcquireLock
  | ErrRedis

record 'v cache_memoryItem =
  ci_value :: "'v any"
  ci_expiration :: "time option"
  ci_tags :: "string list"

datatype Policy = LRUPolicy "string list" | FIFOPolicy "string list"

record Stats =
  KeyCount :: int
  Hits :: int
  Misses :: int
  EvictedCount :: int
  ExpiredCount :: int

record 'v cache_MemoryCache =
  data :: "(string \<times> 'v cache_memoryItem) list"
  tags :: "(string \<times> string list) list"
  maxSize :: int
  policy :: Policy
  stats :: Stats

definition NewStatsCollector :: Stats where
  "NewStatsCollector = \<lparr> KeyCount = 0, Hits = 0, Misses = 0, EvictedCount = 0, ExpiredCount = 0 \<rparr>"

definition IncrKeyCount :: "Stats \<Rightarrow> Stats" where
  "IncrKeyCount s = s\<lparr> KeyCount := KeyCount s + 1 \<rparr>"

definition DecrKeyCount :: "Stats \<Rightarrow> Stats" where
  "DecrKeyCount s = (if KeyCount s > 0 then s\<lparr> KeyCount := KeyCount s - 1 \<rparr> else s)"

definition IncrHits :: "Stats \<Rightarrow> Stats" where
  "IncrHits s = s\<lparr> Hits := Hits s + 1 \<rparr>"

definition IncrMisses :: "Stats \<Rightarrow> Stats" where
  "IncrMisses s = s\<lparr> Misses := Misses s + 1 \<rparr>"

definition IncrEvictedCount :: "Stats \<Rightarrow> Stats" where
  "IncrEvictedCount s = s\<lparr> EvictedCount := EvictedCount s + 1 \<rparr>"

definition IncrExpiredCount :: "Stats \<Rightarrow> Stats" where
  "IncrExpiredCount s = s\<lparr> ExpiredCount := ExpiredCount s + 1 \<rparr>"

text \<open>
  \<^verbatim>\<open>NewMemoryCache\<close> of package cache always installs \<^verbatim>\<open>NewLRUPolicy()\<close>, whatever
  the configured policy name.
\<close>

definition cache_NewMemoryCache :: "int \<Rightarrow> 'v cache_MemoryCache" where
  "cache_NewMemoryCache n =
     \<lparr> data = [], tags = [], maxSize = n, policy = LRUPolicy [], stats = NewStatsCollector \<rparr>"

text \<open>
  \<^verbatim>\<open>Update\<close> and \<^verbatim>\<open>Evict\<close> of the two policies. The loop that cuts the first
  occurrence of a key out of a slice and breaks is \<open>remove1\<close>.
\<close>

fun Policy_Update :: "string \<Rightarrow> Policy \<Rightarrow> Policy" where
  "Policy_Update k (LRUPolicy keys) = LRUPolicy (remove1 k keys @ [k])"
| "Policy_Update k (FIFOPolicy keys) =
     (if k \<in> set keys then FIFOPolicy keys else FIFOPolicy (keys @ [k]))"

fun Policy_Evict :: "Policy \<Rightarrow> string \<times> Policy" where
  "Policy_Evict (LRUPolicy []) = ([], LRUPolicy [])"
| "Policy_Evict (LRUPolicy (k # keys)) = (k, LRUPolicy keys)"
| "Policy_Evict (FIFOPolicy []) = ([], FIFOPolicy [])"
| "Policy_Evict (FIFOPolicy (k # keys)) = (k, FIFOPolicy keys)"

text \<open>
  The loop that removes a key from the key list of each tag of an item
  (\<^verbatim>\<open>Delete\<close>, \<^verbatim>\<open>evictOne\<close>, \<^verbatim>\<open>deleteExpired\<close>).
\<close>

fun removeTagRelations ::
  "string \<Rightarrow> string list \<Rightarrow> (string \<times> string list) list \<Rightarrow> (string \<times> string list) list" where
  "removeTagRelations k [] tg = tg"
| "removeTagRelations k (tag # ts) tg =
     removeTagRelations k ts
       (case map_of tg tag of
          Some keys \<Rightarrow> AList.update tag (remove1 k keys) tg
        | None \<Rightarrow> tg)"

definition cache_evictOne :: "'v cache_MemoryCache \<Rightarrow> 'v cache_MemoryCache" where
  "cache_evictOne c =
     (case Policy_Evict (policy c) of (k, pol) \<Rightarrow>
        let c1 = c\<lparr> policy := pol \<rparr> in
        if k \<noteq> [] then
          (case map_of (data c1) k of
             Some item \<Rightarrow>
               c1\<lparr> tags := removeTagRelations k (ci_tags item) (tags c1),
                   data := AList.delete k (data c1),
                   stats := IncrEvictedCount (DecrKeyCount (stats c1)) \<rparr>
           | None \<Rightarrow> c1)
        else c1)"

text \<open>\<^verbatim>\<open>Set\<close> of package cache always returns \<^verbatim>\<open>nil\<close>; the model returns the adapter.\<close>

definition cache_MemoryCache_Set ::
  "time \<Rightarrow> string \<Rightarrow> 'v any \<Rightarrow> duration \<Rightarrow> 'v cache_MemoryCache \<Rightarrow> 'v cache_MemoryCache" where
  "cache_MemoryCache_Set now k v ttl c =
     (let c1 = (if int (length (data c)) \<ge> maxSize c then cache_evictOne c else c);
          item = \<lparr> ci_value = v, ci_expiration = Some (now + ttl), ci_tags = [] \<rparr>
      in c1\<lparr> data := AList.update k item (data c1),
             policy := Policy_Update k (policy c1),
             stats := IncrKeyCount (stats c1) \<rparr>)"

text \<open>
  \<^verbatim>\<open>Get\<close> copies the cached value into the caller's destination by reflection:
  \<open>isPtr\<close> says whether the destination is a pointer, \<open>assignable\<close> whether the type of
  the cached value can be assigned to what it points to.
\<close>

definition cache_expired :: "time \<Rightarrow> 'v cache_memoryItem \<Rightarrow> bool" where
  "cache_expired now item =
     (case ci_expiration item of None \<Rightarrow> False | Some e \<Rightarrow> After now e)"

definition cache_MemoryCache_Get ::
  "time \<Rightarrow> bool \<Rightarrow> bool \<Rightarrow> string \<Rightarrow> 'v cache_MemoryCache \<Rightarrow>
   (cache_error + 'v any) \<times> 'v cache_MemoryCache" where
  "cache_MemoryCache_Get now isPtr assignable k c =
     (case map_of (data c) k of
        None \<Rightarrow> (Inl ErrNotFound, c\<lparr> stats := IncrMisses (stats c) \<rparr>)
      | Some item \<Rightarrow>
          if cache_expired now item then
            (Inl ErrNotFound, c\<lparr> stats := IncrExpiredCount (IncrMisses (stats c)) \<rparr>)
          else if \<not> isPtr then (Inl ErrInvalidValue, c)
          else if \<not> assignable then (Inl ErrCannotAssign, c)
          else (Inr (ci_value item), c\<lparr> stats := IncrHits (stats c) \<rparr>))"

definition cache_MemoryCache_Has :: "time \<Rightarrow> string \<Rightarrow> 'v cache_MemoryCache \<Rightarrow> bool" where
  "cache_MemoryCache_Has now k c =
     (case map_of (data c) k of
        None \<Rightarrow> False
      | Some item \<Rightarrow> \<not> cache_expired now item)"

definition cache_MemoryCache_Delete :: "string \<Rightarrow> 'v cache_MemoryCache \<Rightarrow> 'v cache_MemoryCache" where
  "cache_MemoryCache_Delete k c =
     (case map_of (data c) k of
        Some item \<Rightarrow>
          c\<lparr> tags := removeTagRelations k (ci_tags item) (tags c),
             data := AList.delete k (data c),
             stats := DecrKeyCount (stats c) \<rparr>
      | None \<Rightarrow> c)"

text \<open>
  \<^verbatim>\<open>SetWithTags\<close>: \<^verbatim>\<open>c.tags[tag] = append(c.tags[tag], key)\<close> for each tag, a missing
  tag reading as the empty slice.
\<close>

fun addTagRelations ::
  "string \<Rightarrow> string list \<Rightarrow> (string \<times> string list) list \<Rightarrow> (string \<times> string list) list" where
  "addTagRelations k [] tg = tg"
| "addTagRelations k (tag # ts) tg =
     addTagRelations k ts
       (AList.update tag ((case map_of tg tag of Some keys \<Rightarrow> keys | None \<Rightarrow> []) @ [k]) tg)"

definition cache_MemoryCache_SetWithTags ::
  "time \<Rightarrow> string \<Rightarrow> 'v any \<Rightarrow> string list \<Rightarrow> duration \<Rightarrow> 'v cache_MemoryCache \<Rightarrow> 'v cache_MemoryCache" where
  "cache_MemoryCache_SetWithTags now k v tgs ttl c =
     (let c1 = (if int (length (data c)) \<ge> maxSize c then cache_evictOne c else c);
          item = \<lparr> ci_value = v, ci_expiration = Some (now + ttl), ci_tags = tgs \<rparr>
      in c1\<lparr> tags := addTagRelations k tgs (tags c1),
             data := AList.update k item (data c1),
             policy := Policy_Update k (policy c1),
             stats := IncrKeyCount (stats c1) \<rparr>)"

definition cache_MemoryCache_GetByTag :: "string \<Rightarrow> 'v cache_MemoryCache \<Rightarrow> string list" where
  "cache_MemoryCache_GetByTag tag c =
     (case map_of (tags c) tag of Some keys \<Rightarrow> keys | None \<Rightarrow> [])"

text \<open>
  The lock of the in-process adapter. \<^verbatim>\<open>UnixNano\<close> counts from 1970, which is
  62135596800 seconds after the zero instant.
\<close>

record MemoryLock =
  ml_key :: string
  ml_expiration :: duration
  ml_value :: int

definition UnixNano :: "time \<Rightarrow> int" where
  "UnixNano t = t - 62135596800 * 1000000000"

definition MemoryLock_acquire ::
  "time \<Rightarrow> MemoryLock \<Rightarrow> (string \<times> 'v cache_memoryItem) list \<Rightarrow> 'v cache_MemoryCache \<Rightarrow>
   cache_error option \<times> MemoryLock \<times> 'v cache_MemoryCache" where
  "MemoryLock_acquire now l d c =
     (let l' = l\<lparr> ml_value := UnixNano now \<rparr>;
          item = \<lparr> ci_value = AnyInt64 (ml_value l'),
                   ci_expiration = Some (now + ml_expiration l), ci_tags = [] \<rparr>
      in (None, l', c\<lparr> data := AList.update (ml_key l) item d \<rparr>))"

definition MemoryLock_Lock ::
  "time \<Rightarrow> MemoryLock \<Rightarrow> 'v cache_MemoryCache \<Rightarrow> cache_error option \<times> MemoryLock \<times> 'v cache_MemoryCache" where
  "MemoryLock_Lock now l c =
     (case map_of (data c) (ml_key l) of
        Some item \<Rightarrow>
          if cache_expired now item
          then MemoryLock_acquire now l (AList.delete (ml_key l) (data c)) c
          else (Some ErrLockAlreadyExists, l, c)
      | None \<Rightarrow> MemoryLock_acquire now l (data c) c)"

definition MemoryLock_Unlock ::
  "MemoryLock \<Rightarrow> 'v cache_MemoryCache \<Rightarrow> cache_error option \<times> 'v cache_MemoryCache" where
  "MemoryLock_Unlock l c =
     (case map_of (data c) (ml_key l) of
        Some item \<Rightarrow>
          if ci_value item = AnyInt64 (ml_value l)
          then (None, c\<lparr> data := AList.delete (ml_key l) (data c) \<rparr>)
          else (Some ErrLockNotFoundOrValueMismatch, c)
      | None \<Rightarrow> (Some ErrLockNotFoundOrValueMismatch, c))"

section \<open>The Redis server, as the adapters use it\<close>

text \<open>
  The server holds a keyspace; an entry with an expiry instant is gone from that instant
  on. \<open>SET key value PX lease NX\<close> writes only when the key is absent, \<open>DEL\<close> removes
  a key whatever its value and answers the number of keys removed, \<open>TTL\<close> answers
  \<open>-2\<close> for an absent key, \<open>-1\<close> for a key without expiry and the remaining time
  rounded to seconds otherwise. A server that cannot be reached answers with an error.
\<close>

record 'w redis_entry =
  r_value :: 'w
  r_expireAt :: "time option"

record 'w redis =
  keyspace :: "(string \<times> 'w redis_entry) list"
  reachable :: bool

datatype redis_error = RedisError

definition redis_lookup :: "time \<Rightarrow> string \<Rightarrow> 'w redis \<Rightarrow> 'w redis_entry option" where
  "redis_lookup now k srv =
     (case map_of (keyspace srv) k of
        None \<Rightarrow> None
      | Some e \<Rightarrow> (case r_expireAt e of
                     None \<Rightarrow> Some e
                   | Some t \<Rightarrow> if now < t then Some e else None))"

definition redis_SetNX ::
  "time \<Rightarrow> string \<Rightarrow> 'w \<Rightarrow> duration \<Rightarrow> 'w redis \<Rightarrow> (redis_error + bool) \<times> 'w redis" where
  "redis_SetNX now k v lease srv =
     (if \<not> reachable srv then (Inl RedisError, srv)
      else if lease < -1 then (Inl RedisError, srv)
      else case redis_lookup now k srv of
        Some e \<Rightarrow> (Inr False, srv)
      | None \<Rightarrow>
          (Inr True,
           srv\<lparr> keyspace :=
                  AList.update k \<lparr> r_value = v,
                                   r_expireAt = (if lease > 0 then Some (now + lease) else None) \<rparr>
                    (keyspace srv) \<rparr>))"

definition redis_Del :: "time \<Rightarrow> string \<Rightarrow> 'w redis \<Rightarrow> (redis_error + int) \<times> 'w redis" where
  "redis_Del now k srv =
     (if \<not> reachable srv then (Inl RedisError, srv)
      else case redis_lookup now k srv of
        Some e \<Rightarrow> (Inr 1, srv\<lparr> keyspace := AList.delete k (keyspace srv) \<rparr>)
      | None \<Rightarrow> (Inr 0, srv\<lparr> keyspace := AList.delete k (keyspace srv) \<rparr>))"




subsection \<open>Package cache: RedisLock\<close>

record RedisLock =
  rl_key :: string
  rl_expiration :: duration

definition RedisLock_Lock :: "time \<Rightarrow> RedisLock \<Rightarrow> int redis \<Rightarrow> cache_error option \<times> int redis" where
  "RedisLock_Lock now l srv =
     (case redis_SetNX now (rl_key l) (UnixNano now) (rl_expiration l) srv of
        (Inl e, srv') \<Rightarrow> (Some ErrAcquireLock, srv')
      | (Inr ok, srv') \<Rightarrow> if \<not> ok then (Some ErrLockAlreadyExists, srv') else (None, srv'))"

definition RedisLock_Unlock :: "time \<Rightarrow> RedisLock \<Rightarrow> int redis \<Rightarrow> cache_error option \<times> int redis" where
  "RedisLock_Unlock now l srv =
     (case redis_Del now (rl_key l) srv of
        (Inl e, srv') \<Rightarrow> (Some ErrRedis, srv')
      | (Inr n, srv') \<Rightarrow> (None, srv'))"

subsection \<open>Package providers: RedisCache.GetTTL\<close>


section \<open>Package providers: the file provider\<close>

text \<open>
  The cache directory is a table from paths to files; a file is readable with its bytes
  or cannot be read. \<^verbatim>\<open>json.Unmarshal\<close> is the parameter \<open>unmarshal\<close>, which gives
  \<open>None\<close> for bytes that are not a cache item. The clock readings of this provider are
  \<^verbatim>\<open>time.Now().Unix()\<close>, in seconds. A failing \<^verbatim>\<open>os.Remove\<close> and a failing directory
  walk are not part of the model.
\<close>

datatype 'b fnode = Readable 'b | Unreadable

record 'v fileItem =
  fi_Version :: int
  fi_Key :: string
  fi_Value :: 'v
  fi_Expiration :: int
  fi_TTL :: int
  fi_CreateTime :: int

record 'b FileCache =
  dirPath :: string
  suffix :: string
  fs :: "(string \<times> 'b fnode) list"
  fc_stopChan_closed :: bool

definition ReplaceAll :: "char \<Rightarrow> char \<Rightarrow> string \<Rightarrow> string" where
  "ReplaceAll old new s = map (\<lambda>c. if c = old then new else c) s"

definition filepath_Join :: "string \<Rightarrow> string \<Rightarrow> string" where
  "filepath_Join d f = d @ ''/'' @ f"

definition keyToFilePath :: "'b FileCache \<Rightarrow> string \<Rightarrow> string" where
  "keyToFilePath c k =
     (let encoded = ReplaceAll CHR ''/'' CHR ''_'' k;
          encoded = ReplaceAll CHR '':'' CHR ''_'' encoded;
          encoded = ReplaceAll CHR ''.'' CHR ''_'' encoded
      in filepath_Join (dirPath c) (encoded @ suffix c))"

definition FileCache_Get ::
  "('b \<Rightarrow> 'v fileItem option) \<Rightarrow> int \<Rightarrow> int \<Rightarrow> string \<Rightarrow> 'b FileCache \<Rightarrow> (gerror + 'v) \<times> 'b FileCache" where
  "FileCache_Get unmarshal now now' k c =
     (if k = [] then (Inl ErrCacheKeyInvalid, c)
      else
        let filePath = keyToFilePath c k in
        case map_of (fs c) filePath of
          None \<Rightarrow> (Inl ErrCacheNotFound, c)
        | Some Unreadable \<Rightarrow> (Inl CodeCacheGetError, c)
        | Some (Readable bytes) \<Rightarrow>
            (case unmarshal bytes of
               None \<Rightarrow> (Inl CodeCacheGetError, c)
             | Some item \<Rightarrow>
                 if fi_Expiration item > 0 \<and> fi_Expiration item < now
                    \<and> fi_Expiration item > 0 \<and> fi_Expiration item < now'
                 then (Inl ErrCacheNotFound, c\<lparr> fs := AList.delete filePath (fs c) \<rparr>)
                 else (Inr (fi_Value item), c)))"


text \<open>
  \<^verbatim>\<open>gcExpired\<close>: the walk visits every file whose name ends with the suffix and removes
  it when it cannot be read, cannot be parsed, or has expired.
\<close>

definition baseName :: "string \<Rightarrow> string" where
  "baseName p = rev (takeWhile (\<lambda>c. c \<noteq> CHR ''/'') (rev p))"

definition HasSuffix :: "string \<Rightarrow> string \<Rightarrow> bool" where
  "HasSuffix s suf = (length suf \<le> length s \<and> drop (length s - length suf) s = suf)"

fun gcRemoves :: "('b \<Rightarrow> 'v fileItem option) \<Rightarrow> int \<Rightarrow> 'b FileCache \<Rightarrow> string \<times> 'b fnode \<Rightarrow> bool" where
  "gcRemoves unmarshal now c (path, node) =
     (if \<not> HasSuffix (baseName path) (suffix c) then False
      else (case node of
              Unreadable \<Rightarrow> True
            | Readable bytes \<Rightarrow>
                (case unmarshal bytes of
                   None \<Rightarrow> True
                 | Some item \<Rightarrow> (fi_Expiration item > 0 \<and> fi_Expiration item < now))))"

definition gcExpired :: "('b \<Rightarrow> 'v fileItem option) \<Rightarrow> int \<Rightarrow> 'b FileCache \<Rightarrow> 'b FileCache" where
  "gcExpired unmarshal now c = c\<lparr> fs := filter (\<lambda>e. \<not> gcRemoves unmarshal now c e) (fs c) \<rparr>"

definition FileCache_Close :: "'b FileCache \<Rightarrow> panic + (gerror option \<times> 'b FileCache)" where
  "FileCache_Close c =
     (if fc_stopChan_closed c then Inl CloseOfClosedChannel
      else Inr (None, c\<lparr> fc_stopChan_closed := True \<rparr>))"

section \<open>Package cache: the file adapter\<close>

record 'v cache_fileItem =
  cf_Value :: "'v any"
  cf_Expiration :: "time option"
  cf_Tags :: "string list"

record 'b cache_FileCache =
  directory :: string
  cfs :: "(string \<times> 'b fnode) list"
  cf_stats :: Stats

definition cache_FileCache_Get ::
  "('b \<Rightarrow> 'v cache_fileItem option) \<Rightarrow> time \<Rightarrow> bool \<Rightarrow> bool \<Rightarrow> string \<Rightarrow> 'b cache_FileCache \<Rightarrow>
   (cache_error + 'v any) \<times> 'b cache_FileCache" where
  "cache_FileCache_Get unmarshal now isPtr assignable k c =
     (let filePath = filepath_Join (directory c) k in
      case map_of (cfs c) filePath of
        None \<Rightarrow> (Inl ErrNotFound, c\<lparr> cf_stats := IncrMisses (cf_stats c) \<rparr>)
      | Some Unreadable \<Rightarrow> (Inl ErrReadCacheFile, c)
      | Some (Readable bytes) \<Rightarrow>
          (case unmarshal bytes of
             None \<Rightarrow> (Inl ErrUnmarshalCacheItem, c)
           | Some item \<Rightarrow>
               if (case cf_Expiration item of None \<Rightarrow> False | Some e \<Rightarrow> After now e) then
                 (Inl ErrNotFound, c\<lparr> cf_stats := IncrExpiredCount (IncrMisses (cf_stats c)) \<rparr>)
               else if \<not> isPtr then (Inl ErrInvalidValue, c)
               else if \<not> assignable then (Inl ErrCannotAssign, c)
               else (Inr (cf_Value item), c\<lparr> cf_stats := IncrHits (cf_stats c) \<rparr>)))"



section \<open>The contract of GetTTL, in the words of the specification\<close>









text \<open>A backing file is corrupted when it cannot be read or its bytes cannot be parsed.\<close>

definition corrupted :: "('b \<Rightarrow> 'i option) \<Rightarrow> 'b fnode \<Rightarrow> bool" where
  "corrupted unmarshal node =
     (case node of Unreadable \<Rightarrow> True | Readable bytes \<Rightarrow> unmarshal bytes = None)"

text \<open>
  The calls a client (or the janitor) can make on the in-process provider, and a run of
  a list of them; the errors and values the calls return are dropped.
\<close>

datatype 'v memory_op =
    DoSet time string 'v duration
  | DoGet time string
  | DoDelete string
  | DoGetTTL time time string
  | DoSweep time
  | DoFlush

fun apply_op ::
  "((string \<times> 'v memoryItem) list \<Rightarrow> (string \<times> 'v memoryItem) list) \<Rightarrow> 'v memory_op \<Rightarrow>
   'v MemoryCache \<Rightarrow> 'v MemoryCache" where
  "apply_op rng (DoSet now k v ttl) c = snd (MemoryCache_Set rng now k v ttl c)"
| "apply_op rng (DoGet now k) c = snd (MemoryCache_Get now k c)"
| "apply_op rng (DoDelete k) c = snd (MemoryCache_Delete k c)"
| "apply_op rng (DoGetTTL now now' k) c = snd (MemoryCache_GetTTL now now' k c)"
| "apply_op rng (DoSweep now) c = deleteExpired now c"
| "apply_op rng DoFlush c = MemoryCache_Flush c"

fun run_ops ::
  "((string \<times> 'v memoryItem) list \<Rightarrow> (string \<times> 'v memoryItem) list) \<Rightarrow> 'v memory_op list \<Rightarrow>
   'v MemoryCache \<Rightarrow> 'v MemoryCache" where
  "run_ops rng [] c = c"
| "run_ops rng (op # ops) c = run_ops rng ops (apply_op rng op c)"

text \<open>
  The table is well formed when its keys are distinct and not empty, as \<^verbatim>\<open>Set\<close>
  leaves them, and holds no more items than the configured bound.
\<close>

definition bounded :: "'v MemoryCache \<Rightarrow> bool" where
  "bounded c =
     (distinct (map fst (items c)) \<and> [] \<notin> set (map fst (items c))
      \<and> 0 < config_MaxSize c \<and> int (length (items c)) \<le> config_MaxSize c)"

chapter \<open>Properties\<close>

section \<open>Items stored without expiration\<close>













section \<open>The size bound of the in-process provider of package providers\<close>

lemma scanAccessTime_key:
  "ko \<in> fst ` S \<Longrightarrow> fst ` set xs \<subseteq> fst ` S
     \<Longrightarrow> snd (scanAccessTime xs (o', ko)) \<in> fst ` S"
proof (induction xs arbitrary: o' ko)
  case Nil
  then show ?case by simp
next
  case (Cons x xs)
  obtain k v where x: "x = (k, v)" by (cases x)
  from Cons.prems(2) x have k: "k \<in> fst ` S" and sub: "fst ` set xs \<subseteq> fst ` S" by auto
  show ?case
    using Cons.IH [OF k sub, of "mi_accessTime v"] Cons.IH [OF Cons.prems(1) sub, of o'] x
    by simp
qed

lemma scanAccessCount_key:
  "ko \<in> fst ` S \<Longrightarrow> fst ` set xs \<subseteq> fst ` S
     \<Longrightarrow> snd (scanAccessCount xs (n, ko)) \<in> fst ` S"
proof (induction xs arbitrary: n ko)
  case Nil
  then show ?case by simp
next
  case (Cons x xs)
  obtain k v where x: "x = (k, v)" by (cases x)
  from Cons.prems(2) x have k: "k \<in> fst ` S" and sub: "fst ` set xs \<subseteq> fst ` S" by auto
  show ?case
    using Cons.IH [OF k sub, of "mi_accessCount v"] Cons.IH [OF Cons.prems(1) sub, of n] x
    by simp
qed

lemma scanCreateTime_key:
  "ko \<in> fst ` S \<Longrightarrow> fst ` set xs \<subseteq> fst ` S
     \<Longrightarrow> snd (scanCreateTime xs (o', ko)) \<in> fst ` S"
proof (induction xs arbitrary: o' ko)
  case Nil
  then show ?case by simp
next
  case (Cons x xs)
  obtain k v where x: "x = (k, v)" by (cases x)
  from Cons.prems(2) x have k: "k \<in> fst ` S" and sub: "fst ` set xs \<subseteq> fst ` S" by auto
  show ?case
    using Cons.IH [OF k sub, of "mi_createTime v"] Cons.IH [OF Cons.prems(1) sub, of o'] x
    by simp
qed

lemma scanAccessTime_first:
  "snd (scanAccessTime ((k, v) # xs) (0, [])) \<in> fst ` insert (k, v) (set xs)"
proof -
  have "snd (scanAccessTime xs (mi_accessTime v, k)) \<in> fst ` insert (k, v) (set xs)"
    by (rule scanAccessTime_key) auto
  then show ?thesis by (simp add: IsZero_def)
qed

lemma scanAccessCount_first:
  "snd (scanAccessCount ((k, v) # xs) (-1, [])) \<in> fst ` insert (k, v) (set xs)"
proof -
  have "snd (scanAccessCount xs (mi_accessCount v, k)) \<in> fst ` insert (k, v) (set xs)"
    by (rule scanAccessCount_key) auto
  then show ?thesis by simp
qed

lemma scanCreateTime_first:
  "snd (scanCreateTime ((k, v) # xs) (0, [])) \<in> fst ` insert (k, v) (set xs)"
proof -
  have "snd (scanCreateTime xs (mi_createTime v, k)) \<in> fst ` insert (k, v) (set xs)"
    by (rule scanCreateTime_key) auto
  then show ?thesis by (simp add: IsZero_def)
qed

lemma victim_is_key:
  assumes "set (rng (items c)) = set (items c)" and "items c \<noteq> []"
  shows "victim rng c \<in> fst ` set (items c)"
proof -
  from assms obtain k v xs where r: "rng (items c) = (k, v) # xs"
    by (cases "rng (items c)") auto
  with assms(1) have s: "insert (k, v) (set xs) = set (items c)" by simp
  show ?thesis
    using scanAccessTime_first [of k v xs] scanAccessCount_first [of k v xs]
      scanCreateTime_first [of k v xs]
    by (simp add: victim_def r s)
qed

lemma length_delete_key:
  assumes "distinct (map fst xs)" and "k \<in> fst ` set xs"
  shows "length (AList.delete k xs) = length xs - 1"
proof -
  have "length (AList.delete k xs) = length (map fst (AList.delete k xs))" by simp
  also have "\<dots> = length (remove1 k (map fst xs))"
    using assms(1) by (simp only: delete_keys distinct_remove1_removeAll)
  also have "\<dots> = length xs - 1"
    using assms(2) by (simp add: length_remove1)
  finally show ?thesis .
qed

lemma keys_delete: "[] \<notin> set (map fst xs) \<Longrightarrow> [] \<notin> set (map fst (AList.delete k xs))"
  by (simp add: delete_keys)

lemma update_new_key: "k \<notin> fst ` set xs \<Longrightarrow> AList.update k v xs = xs @ [(k, v)]"
  by (induction xs) auto

lemma evictOne_removes_one:
  assumes "bounded c" and "set (rng (items c)) = set (items c)" and "items c \<noteq> []"
  shows "victim rng c \<in> fst ` set (items c)"
    and "evictOne rng c =
           c\<lparr> items := AList.delete (victim rng c) (items c),
              stats_evictions := stats_evictions c + 1,
              stats_currentItemCount := stats_currentItemCount c - 1 \<rparr>"
    and "length (items (evictOne rng c)) = length (items c) - 1"
proof -
  show v: "victim rng c \<in> fst ` set (items c)"
    using assms(2,3) by (rule victim_is_key)
  with assms(1) have ne: "victim rng c \<noteq> []"
    by (force simp: bounded_def)
  show e: "evictOne rng c =
           c\<lparr> items := AList.delete (victim rng c) (items c),
              stats_evictions := stats_evictions c + 1,
              stats_currentItemCount := stats_currentItemCount c - 1 \<rparr>"
    using assms(3) ne by (simp add: evictOne_def Let_def)
  have "length (AList.delete (victim rng c) (items c)) = length (items c) - 1"
    using assms(1) v by (simp add: length_delete_key bounded_def)
  then show "length (items (evictOne rng c)) = length (items c) - 1"
    by (simp add: e)
qed

lemma bounded_evictOne:
  assumes "bounded c" and "set (rng (items c)) = set (items c)" and "items c \<noteq> []"
  shows "bounded (evictOne rng c)" and "int (length (items (evictOne rng c))) < config_MaxSize c"
proof -
  note e = evictOne_removes_one(2) [of c rng, OF assms]
  note l = evictOne_removes_one(3) [of c rng, OF assms]
  from assms(3) have pos: "0 < length (items c)" by simp
  from assms(3) have "int (length (items c) - 1) = int (length (items c)) - 1"
    by (cases "items c") simp_all
  with assms(1) l show "int (length (items (evictOne rng c))) < config_MaxSize c"
    by (simp add: bounded_def)
  with assms(1) show "bounded (evictOne rng c)"
    by (auto simp: e bounded_def delete_keys distinct_removeAll)
qed

lemma bounded_update:
  assumes "distinct (map fst xs)" and "[] \<notin> set (map fst xs)" and "k \<noteq> []"
  shows "distinct (map fst (AList.update k v xs))" and "[] \<notin> set (map fst (AList.update k v xs))"
    and "length (AList.update k v xs) = (if k \<in> fst ` set xs then length xs else Suc (length xs))"
proof -
  show "distinct (map fst (AList.update k v xs))" using assms(1) by (rule distinct_update)
  show "[] \<notin> set (map fst (AList.update k v xs))" using assms(2,3) by (auto simp: update_keys)
  have "length (AList.update k v xs) = length (map fst (AList.update k v xs))" by simp
  also have "\<dots> = (if k \<in> fst ` set xs then length xs else Suc (length xs))"
    by (simp only: update_keys) simp
  finally show "length (AList.update k v xs) = (if k \<in> fst ` set xs then length xs else Suc (length xs))" .
qed

lemma bounded_Set:
  assumes "bounded c" and "\<And>xs. set (rng xs) = set xs"
  shows "bounded (snd (MemoryCache_Set rng now k v ttl c))"
proof (cases "k = []")
  case True
  with assms(1) show ?thesis by (simp add: MemoryCache_Set_def)
next
  case False
  let ?item = "\<lparr> mi_key = k, mi_value = v, mi_expiration = (if ttl > 0 then now + ttl else 0),
                  mi_ttl = ttl, mi_accessTime = now, mi_accessCount = 0, mi_createTime = now \<rparr>"
  from assms(1) have d: "distinct (map fst (items c))" and n: "[] \<notin> set (map fst (items c))"
    and m: "0 < config_MaxSize c" and l: "int (length (items c)) \<le> config_MaxSize c"
    by (simp_all add: bounded_def)
  show ?thesis
  proof (cases "int (length (items c)) \<ge> config_MaxSize c \<and> map_of (items c) k = None")
    case True
    with m have ne: "items c \<noteq> []" by auto
    note b = bounded_evictOne(1) [of c rng, OF assms(1) assms(2) ne]
    note lt = bounded_evictOne(2) [of c rng, OF assms(1) assms(2) ne]
    have cfg: "config_MaxSize (evictOne rng c) = config_MaxSize c"
      by (simp add: evictOne_def Let_def)
    from b have d1: "distinct (map fst (items (evictOne rng c)))"
      and n1: "[] \<notin> set (map fst (items (evictOne rng c)))" by (simp_all add: bounded_def)
    from bounded_update [OF d1 n1 False, of ?item] lt m cfg
    have "bounded ((evictOne rng c)\<lparr> items := AList.update k ?item (items (evictOne rng c)) \<rparr>)"
      by (auto simp: bounded_def)
    with True m False show ?thesis
      by (simp add: MemoryCache_Set_def Let_def bounded_def)
  next
    case False
    note nf = this
    have "length (AList.update k ?item (items c)) \<le> nat (config_MaxSize c)"
    proof (cases "k \<in> fst ` set (items c)")
      case True
      with bounded_update(3) [OF d n \<open>k \<noteq> []\<close>, of ?item] l show ?thesis by simp
    next
      case False
      then have "map_of (items c) k = None" by (simp add: map_of_eq_None_iff)
      with nf have "int (length (items c)) < config_MaxSize c" by simp
      with bounded_update(3) [OF d n \<open>k \<noteq> []\<close>, of ?item] False show ?thesis by simp
    qed
    with bounded_update(1,2) [OF d n \<open>k \<noteq> []\<close>, of ?item] m
    have "bounded (c\<lparr> items := AList.update k ?item (items c) \<rparr>)"
      by (simp add: bounded_def)
    with nf \<open>k \<noteq> []\<close> show ?thesis
      by (auto simp: MemoryCache_Set_def Let_def bounded_def)
  qed
qed

lemma bounded_smaller:
  assumes "bounded c" and "distinct (map fst xs)" and "set (map fst xs) \<subseteq> set (map fst (items c))"
    and "length xs \<le> length (items c)"
  shows "bounded (c\<lparr> items := xs \<rparr>)"
  using assms by (auto simp: bounded_def)

lemma bounded_delete:
  assumes "bounded c"
  shows "bounded (c\<lparr> items := AList.delete k (items c) \<rparr>)"
proof (rule bounded_smaller [OF assms])
  show "distinct (map fst (AList.delete k (items c)))"
    using assms by (simp add: bounded_def distinct_delete)
  show "set (map fst (AList.delete k (items c))) \<subseteq> set (map fst (items c))"
    by (simp add: delete_keys)
  show "length (AList.delete k (items c)) \<le> length (items c)"
    by (rule length_delete_le)
qed

lemma bounded_touch:
  assumes "bounded c" and "map_of (items c) k = Some item"
  shows "bounded (c\<lparr> items := AList.update k item' (items c) \<rparr>)"
proof -
  from assms(2) have "k \<in> set (map fst (items c))"
    by (metis map_of_eq_None_iff option.distinct(1) set_map)
  then have "map fst (AList.update k item' (items c)) = map fst (items c)"
    by (simp add: update_keys)
  then have "distinct (map fst (AList.update k item' (items c)))"
    and "set (map fst (AList.update k item' (items c))) \<subseteq> set (map fst (items c))"
    and "length (AList.update k item' (items c)) \<le> length (items c)"
    using assms(1) by (simp_all add: bounded_def) (metis length_map order_refl)
  with assms(1) show ?thesis by (rule bounded_smaller)
qed

lemma bounded_stats [simp]:
  "bounded (c\<lparr> stats_hits := a \<rparr>) = bounded c"
  "bounded (c\<lparr> stats_misses := a \<rparr>) = bounded c"
  "bounded (c\<lparr> stats_deletes := a \<rparr>) = bounded c"
  "bounded (c\<lparr> stats_expirations := a \<rparr>) = bounded c"
  "bounded (c\<lparr> stats_currentItemCount := a \<rparr>) = bounded c"
  by (simp_all add: bounded_def)

lemma bounded_Get:
  assumes "bounded c"
  shows "bounded (snd (MemoryCache_Get now k c))"
proof (cases "map_of (items c) k")
  case None
  with assms show ?thesis by (simp add: MemoryCache_Get_def)
next
  case (Some item)
  with assms bounded_delete [OF assms, of k] bounded_touch [OF assms Some] show ?thesis
    by (simp add: MemoryCache_Get_def)
qed

lemma bounded_GetTTL:
  assumes "bounded c"
  shows "bounded (snd (MemoryCache_GetTTL now now' k c))"
proof (cases "map_of (items c) k")
  case None
  with assms show ?thesis by (simp add: MemoryCache_GetTTL_def)
next
  case (Some item)
  with assms bounded_delete [OF assms, of k] show ?thesis
    by (simp add: MemoryCache_GetTTL_def Let_def)
qed

lemma bounded_Delete:
  assumes "bounded c"
  shows "bounded (snd (MemoryCache_Delete k c))"
  using assms bounded_delete [OF assms, of k] by (simp add: MemoryCache_Delete_def)

lemma bounded_deleteExpired:
  assumes "bounded c"
  shows "bounded (deleteExpired now c)"
proof -
  have "bounded (c\<lparr> items := filter (\<lambda>(k, v). \<not> isExpired now v) (items c) \<rparr>)"
  proof (rule bounded_smaller [OF assms])
    show "distinct (map fst (filter (\<lambda>(k, v). \<not> isExpired now v) (items c)))"
      using assms by (simp add: bounded_def distinct_map_filter)
    show "set (map fst (filter (\<lambda>(k, v). \<not> isExpired now v) (items c))) \<subseteq> set (map fst (items c))"
      by auto
    show "length (filter (\<lambda>(k, v). \<not> isExpired now v) (items c)) \<le> length (items c)"
      by simp
  qed
  then show ?thesis by (simp add: deleteExpired_def Let_def)
qed

lemma bounded_Flush:
  assumes "bounded c"
  shows "bounded (MemoryCache_Flush c)"
  using assms by (simp add: MemoryCache_Flush_def bounded_def)

lemma bounded_apply_op:
  assumes "bounded c" and "\<And>xs. set (rng xs) = set xs"
  shows "bounded (apply_op rng op c)"
  using assms
  by (cases op)
     (simp_all add: bounded_Set bounded_Get bounded_Delete bounded_GetTTL bounded_deleteExpired
        bounded_Flush)

lemma bounded_run_ops:
  assumes "bounded c" and "\<And>xs. set (rng xs) = set xs"
  shows "bounded (run_ops rng ops c)"
  using assms(1)
proof (induction ops arbitrary: c)
  case Nil
  then show ?case by simp
next
  case (Cons op ops)
  from bounded_apply_op [OF Cons.prems assms(2)] have "bounded (apply_op rng op c)" .
  from Cons.IH [OF this] show ?case by simp
qed

lemma bounded_NewMemoryCache: "bounded (NewMemoryCache n pol)"
  by (simp add: bounded_def NewMemoryCache_def DefaultMemoryCacheSize_def)

text \<open>
  In package providers the size bound holds: after any run of calls on a new provider
  the table holds at most MaxSize items; a Set of a new key on a full table evicts exactly
  one stored key, and a Set of a stored key evicts nothing.
\<close>

lemma MemoryCache_never_exceeds_MaxSize:
  assumes "\<And>xs. set (rng xs) = set xs"
  shows "int (length (items (run_ops rng ops (NewMemoryCache n pol))))
           \<le> config_MaxSize (run_ops rng ops (NewMemoryCache n pol))"
  using bounded_run_ops [OF bounded_NewMemoryCache assms, of ops n pol]
  by (simp add: bounded_def)

lemma MemoryCache_Set_new_key_evicts_one:
  assumes "bounded c" and "\<And>xs. set (rng xs) = set xs" and "k \<noteq> []"
    and "map_of (items c) k = None" and "int (length (items c)) = config_MaxSize c"
  shows "victim rng c \<in> fst ` set (items c)
       \<and> items (snd (MemoryCache_Set rng now k v ttl c)) =
           AList.delete (victim rng c) (items c) @
             [(k, \<lparr> mi_key = k, mi_value = v, mi_expiration = (if ttl > 0 then now + ttl else 0),
                    mi_ttl = ttl, mi_accessTime = now, mi_accessCount = 0, mi_createTime = now \<rparr>)]
       \<and> length (items (snd (MemoryCache_Set rng now k v ttl c))) = length (items c)
       \<and> stats_evictions (snd (MemoryCache_Set rng now k v ttl c)) = stats_evictions c + 1"
proof -
  from assms(1,5) have ne: "items c \<noteq> []" by (auto simp: bounded_def)
  note v = evictOne_removes_one(1) [of c rng, OF assms(1) assms(2) ne]
  note e = evictOne_removes_one(2) [of c rng, OF assms(1) assms(2) ne]
  note l = evictOne_removes_one(3) [of c rng, OF assms(1) assms(2) ne]
  from assms(4) have "k \<notin> fst ` set (AList.delete (victim rng c) (items c))"
    using dom_delete_subset [of "victim rng c" "items c"] by (auto simp: map_of_eq_None_iff)
  then have u: "AList.update k x (AList.delete (victim rng c) (items c))
                  = AList.delete (victim rng c) (items c) @ [(k, x)]" for x
    by (rule update_new_key)
  from assms(1,3,4,5) ne l show ?thesis
    by (simp add: MemoryCache_Set_def Let_def bounded_def v u e)
qed

lemma MemoryCache_Set_overwrite_evicts_nothing:
  assumes "k \<noteq> []" and "map_of (items c) k \<noteq> None"
  shows "map fst (items (snd (MemoryCache_Set rng now k v ttl c))) = map fst (items c)
       \<and> stats_evictions (snd (MemoryCache_Set rng now k v ttl c)) = stats_evictions c"
proof -
  from assms(2) obtain y where y: "map_of (items c) k = Some y" by auto
  then have "k \<in> set (map fst (items c))"
    by (metis map_of_eq_None_iff option.distinct(1) set_map)
  with assms(1) y show ?thesis
    by (simp add: MemoryCache_Set_def Let_def update_keys)
qed

section \<open>The size bound of the in-process adapter of package cache\<close>

text \<open>
  C2, evaluated on package cache. With maxSize = 1, the calls Set(A); Delete(A); Set(B);
  Set(C) leave two items in the table: Delete does not tell the policy, so the policy
  names the deleted key A as the victim of the last Set and nothing is evicted. With
  maxSize = 2, the calls Set(A); Set(B); Set(B) evict A, although the last Set only
  overwrites B.
\<close>

theorem C2_cache_exceeds_maxSize:
  "maxSize (cache_MemoryCache_Set 300 ''C'' (AnyValue (3::nat)) 1000
             (cache_MemoryCache_Set 200 ''B'' (AnyValue 2) 1000
               (cache_MemoryCache_Delete ''A''
                 (cache_MemoryCache_Set 100 ''A'' (AnyValue 5) 1000 (cache_NewMemoryCache 1))))) = 1
   \<and> map fst (data (cache_MemoryCache_Set 300 ''C'' (AnyValue (3::nat)) 1000
             (cache_MemoryCache_Set 200 ''B'' (AnyValue 2) 1000
               (cache_MemoryCache_Delete ''A''
                 (cache_MemoryCache_Set 100 ''A'' (AnyValue 5) 1000 (cache_NewMemoryCache 1))))))
       = [''B'', ''C'']
   \<and> map fst (data (cache_MemoryCache_Set 300 ''B'' (AnyValue (3::nat)) 1000
             (cache_MemoryCache_Set 200 ''B'' (AnyValue 2) 1000
               (cache_MemoryCache_Set 100 ''A'' (AnyValue 5) 1000 (cache_NewMemoryCache 2)))))
       = [''B'']"
  by (simp add: cache_MemoryCache_Set_def cache_MemoryCache_Delete_def cache_NewMemoryCache_def
      cache_evictOne_def Let_def NewStatsCollector_def IncrKeyCount_def DecrKeyCount_def
      IncrEvictedCount_def)

section \<open>Unlock of the memory-backed lock\<close>

text \<open>
  The memory-backed lock checks the token: Unlock succeeds exactly when the record under
  the lock key holds the token of the caller; then the record is removed, and otherwise
  the store is left as it was.
\<close>

lemma MemoryLock_Unlock_token:
  "(fst (MemoryLock_Unlock l c) = None) =
     (\<exists>item. map_of (data c) (ml_key l) = Some item \<and> ci_value item = AnyInt64 (ml_value l))"
  "fst (MemoryLock_Unlock l c) = None \<Longrightarrow>
     data (snd (MemoryLock_Unlock l c)) = AList.delete (ml_key l) (data c)"
  "fst (MemoryLock_Unlock l c) \<noteq> None \<Longrightarrow> snd (MemoryLock_Unlock l c) = c"
  by (auto simp: MemoryLock_Unlock_def split: option.splits)

text \<open>
  The scenario of the redis-backed lock, on the memory-backed lock: the Unlock of the
  holder whose lease ran out fails and leaves the record of the new holder.
\<close>

lemma MemoryLock_Unlock_foreign_fails:
  "MemoryLock_Lock 200 \<lparr> ml_key = ''lock'', ml_expiration = 20, ml_value = 0 \<rparr>
     (snd (snd (MemoryLock_Lock 100 \<lparr> ml_key = ''lock'', ml_expiration = 10, ml_value = 0 \<rparr>
                 (cache_NewMemoryCache 10 :: nat cache_MemoryCache))))
   = (None, \<lparr> ml_key = ''lock'', ml_expiration = 20, ml_value = UnixNano 200 \<rparr>,
      (cache_NewMemoryCache 10)
        \<lparr> data := [(''lock'', \<lparr> ci_value = AnyInt64 (UnixNano 200), ci_expiration = Some 220,
                                 ci_tags = [] \<rparr>)] \<rparr>)"
  "MemoryLock_Unlock \<lparr> ml_key = ''lock'', ml_expiration = 10, ml_value = UnixNano 100 \<rparr>
     ((cache_NewMemoryCache 10 :: nat cache_MemoryCache)
        \<lparr> data := [(''lock'', \<lparr> ci_value = AnyInt64 (UnixNano 200), ci_expiration = Some 220,
                                 ci_tags = [] \<rparr>)] \<rparr>)
   = (Some ErrLockNotFoundOrValueMismatch,
      (cache_NewMemoryCache 10)
        \<lparr> data := [(''lock'', \<lparr> ci_value = AnyInt64 (UnixNano 200), ci_expiration = Some 220,
                                 ci_tags = [] \<rparr>)] \<rparr>)"
  "MemoryLock_Unlock \<lparr> ml_key = ''lock'', ml_expiration = 20, ml_value = UnixNano 200 \<rparr>
     ((cache_NewMemoryCache 10 :: nat cache_MemoryCache)
        \<lparr> data := [(''lock'', \<lparr> ci_value = AnyInt64 (UnixNano 200), ci_expiration = Some 220,
                                 ci_tags = [] \<rparr>)] \<rparr>)
   = (None, (cache_NewMemoryCache 10) \<lparr> data := [] \<rparr>)"
  by (simp_all add: MemoryLock_Lock_def MemoryLock_acquire_def MemoryLock_Unlock_def
      cache_NewMemoryCache_def cache_expired_def After_def UnixNano_def Let_def)

section \<open>Unlock of the redis-backed lock\<close>

text \<open>
  C3, evaluated on RedisLock. Holder A takes the lock at second 100 with a lease of 10
  seconds; the lease runs out; holder B takes the lock at second 200 with a lease of 20
  seconds, and the record holds B's token. The Unlock of A at second 205 succeeds and
  removes B's record.
\<close>

theorem C3_RedisLock_Unlock_foreign:
  "fst (RedisLock_Lock 100000000000 \<lparr> rl_key = ''lock'', rl_expiration = 10000000000 \<rparr>
          \<lparr> keyspace = [], reachable = True \<rparr>) = None
   \<and> RedisLock_Lock 200000000000 \<lparr> rl_key = ''lock'', rl_expiration = 20000000000 \<rparr>
        (snd (RedisLock_Lock 100000000000 \<lparr> rl_key = ''lock'', rl_expiration = 10000000000 \<rparr>
               \<lparr> keyspace = [], reachable = True \<rparr>))
      = (None, \<lparr> keyspace = [(''lock'', \<lparr> r_value = UnixNano 200000000000,
                                           r_expireAt = Some 220000000000 \<rparr>)],
                 reachable = True \<rparr>)
   \<and> RedisLock_Unlock 205000000000 \<lparr> rl_key = ''lock'', rl_expiration = 10000000000 \<rparr>
        \<lparr> keyspace = [(''lock'', \<lparr> r_value = UnixNano 200000000000,
                                   r_expireAt = Some 220000000000 \<rparr>)],
          reachable = True \<rparr>
      = (None, \<lparr> keyspace = [], reachable = True \<rparr>)"
  by (simp add: RedisLock_Lock_def RedisLock_Unlock_def redis_SetNX_def redis_Del_def
      redis_lookup_def)

section \<open>Lazy expiry on Get\<close>









section \<open>Corrupted cache files\<close>

lemma FileCache_Get_corrupted:
  assumes "k \<noteq> []" and "map_of (fs c) (keyToFilePath c k) = Some node"
    and "corrupted unmarshal node"
  shows "FileCache_Get unmarshal now now' k c = (Inl CodeCacheGetError, c)"
  using assms
  by (cases node) (simp_all add: FileCache_Get_def corrupted_def Let_def)

lemma cache_FileCache_Get_corrupted:
  assumes "map_of (cfs d) (filepath_Join (directory d) k) = Some node"
    and "corrupted unmarshal node"
  shows "cache_FileCache_Get unmarshal now isPtr assignable k d =
           (case node of Unreadable \<Rightarrow> Inl ErrReadCacheFile
            | Readable bytes \<Rightarrow> Inl ErrUnmarshalCacheItem, d)"
  using assms
  by (cases node) (simp_all add: cache_FileCache_Get_def corrupted_def Let_def)

lemma ReplaceAll_removes: "old \<noteq> new \<Longrightarrow> old \<notin> set (ReplaceAll old new s)"
  by (auto simp: ReplaceAll_def)

lemma ReplaceAll_keeps_out: "x \<notin> set s \<Longrightarrow> x \<noteq> new \<Longrightarrow> x \<notin> set (ReplaceAll old new s)"
  by (auto simp: ReplaceAll_def)

lemma baseName_Join:
  assumes "CHR ''/'' \<notin> set f"
  shows "baseName (filepath_Join d f) = f"
proof -
  have "takeWhile (\<lambda>c. c \<noteq> CHR ''/'') (rev f @ CHR ''/'' # rev d) = rev f"
    using assms by (auto simp: takeWhile_tail)
  then show ?thesis by (simp add: baseName_def filepath_Join_def)
qed

lemma baseName_keyToFilePath:
  assumes "CHR ''/'' \<notin> set (suffix c)"
  shows "HasSuffix (baseName (keyToFilePath c k)) (suffix c)"
proof -
  let ?e = "ReplaceAll CHR ''.'' CHR ''_'' (ReplaceAll CHR '':'' CHR ''_'' (ReplaceAll CHR ''/'' CHR ''_'' k))"
  have "CHR ''/'' \<notin> set ?e"
    by (intro ReplaceAll_keeps_out ReplaceAll_removes) simp_all
  with assms have "CHR ''/'' \<notin> set (?e @ suffix c)" by simp
  then have "baseName (keyToFilePath c k) = ?e @ suffix c"
    by (simp add: keyToFilePath_def Let_def baseName_Join)
  then show ?thesis by (simp add: HasSuffix_def)
qed

lemma map_of_filter_out:
  assumes "distinct (map fst xs)" and "map_of xs k = Some v" and "\<not> P (k, v)"
  shows "map_of (filter P xs) k = None"
  using assms
proof (induction xs)
  case Nil
  then show ?case by simp
next
  case (Cons x xs)
  obtain k' v' where x: "x = (k', v')" by (cases x)
  show ?case
  proof (cases "k' = k")
    case True
    with Cons.prems x have "v' = v" and "k \<notin> fst ` set xs" by auto
    then have "map_of (filter P xs) k = None"
      by (auto simp: map_of_eq_None_iff)
    with True x \<open>v' = v\<close> Cons.prems(3) show ?thesis by simp
  next
    case False
    with Cons x show ?thesis by simp
  qed
qed

lemma gcExpired_removes_corrupted:
  assumes "distinct (map fst (fs c))" and "CHR ''/'' \<notin> set (suffix c)"
    and "map_of (fs c) (keyToFilePath c k) = Some node" and "corrupted unmarshal node"
  shows "map_of (fs (gcExpired unmarshal now c)) (keyToFilePath c k) = None"
proof -
  have "gcRemoves unmarshal now c (keyToFilePath c k, node)"
    using assms(4) baseName_keyToFilePath [OF assms(2), of k]
    by (cases node) (simp_all add: corrupted_def)
  then have "\<not> (\<lambda>e. \<not> gcRemoves unmarshal now c e) (keyToFilePath c k, node)" by simp
  with assms(1,3) have "map_of (filter (\<lambda>e. \<not> gcRemoves unmarshal now c e) (fs c)) (keyToFilePath c k) = None"
    by (rule map_of_filter_out)
  then show ?thesis by (simp add: gcExpired_def)
qed

text \<open>
  C5 (amended). For every file-provider key whose backing file cannot be read or cannot
  be deserialized, Get returns an error that is not NotFound (the Get error code in
  package providers; the read or unmarshal error in package cache) and leaves the
  backing file where it is. In package providers it is the periodic sweep gcExpired that
  deletes such a file (the file suffix holding no path separator).
\<close>

theorem C5_corrupted_file:
  assumes "k \<noteq> []" and "map_of (fs c) (keyToFilePath c k) = Some node"
    and "corrupted unmarshal node"
    and "distinct (map fst (fs c))" and "CHR ''/'' \<notin> set (suffix c)"
    and "map_of (cfs d) (filepath_Join (directory d) k') = Some node'"
    and "corrupted unmarshal' node'"
  shows "FileCache_Get unmarshal now now' k c = (Inl CodeCacheGetError, c)
       \<and> map_of (fs (gcExpired unmarshal now c)) (keyToFilePath c k) = None
       \<and> cache_FileCache_Get unmarshal' t isPtr assignable k' d =
           (case node' of Unreadable \<Rightarrow> Inl ErrReadCacheFile
            | Readable bytes \<Rightarrow> Inl ErrUnmarshalCacheItem, d)"
  using FileCache_Get_corrupted [OF assms(1,2,3)]
    gcExpired_removes_corrupted [OF assms(4,5,2,3)]
    cache_FileCache_Get_corrupted [OF assms(6,7)]
  by simp

theorem C5_corrupted_file_witness:
  "''k'' \<noteq> []
   \<and> map_of (fs \<lparr> dirPath = ''/tmp/gcache'', suffix = ''.cache'',
                  fs = [(''/tmp/gcache/k.cache'', Readable (None :: nat fileItem option))],
                  fc_stopChan_closed = False \<rparr>)
        (keyToFilePath \<lparr> dirPath = ''/tmp/gcache'', suffix = ''.cache'',
                  fs = [(''/tmp/gcache/k.cache'', Readable (None :: nat fileItem option))],
                  fc_stopChan_closed = False \<rparr> ''k'')
       = Some (Readable None)
   \<and> corrupted id (Readable (None :: nat fileItem option))
   \<and> CHR ''/'' \<notin> set ''.cache''
   \<and> corrupted id (Unreadable :: nat cache_fileItem option fnode)
   \<and> FileCache_Get id 120 121 ''k''
        \<lparr> dirPath = ''/tmp/gcache'', suffix = ''.cache'',
          fs = [(''/tmp/gcache/k.cache'', Readable (None :: nat fileItem option))],
          fc_stopChan_closed = False \<rparr>
       = (Inl CodeCacheGetError,
          \<lparr> dirPath = ''/tmp/gcache'', suffix = ''.cache'',
            fs = [(''/tmp/gcache/k.cache'', Readable None)],
            fc_stopChan_closed = False \<rparr>)
   \<and> fs (gcExpired id 120
        \<lparr> dirPath = ''/tmp/gcache'', suffix = ''.cache'',
          fs = [(''/tmp/gcache/k.cache'', Readable (None :: nat fileItem option))],
          fc_stopChan_closed = False \<rparr>) = []
   \<and> cache_FileCache_Get id 120 True True ''k''
        \<lparr> directory = ''/tmp/cache'',
          cfs = [(''/tmp/cache/k'', (Unreadable :: nat cache_fileItem option fnode))],
          cf_stats = NewStatsCollector \<rparr>
       = (Inl ErrReadCacheFile,
          \<lparr> directory = ''/tmp/cache'', cfs = [(''/tmp/cache/k'', Unreadable)],
            cf_stats = NewStatsCollector \<rparr>)"
proof -
  let ?c = "\<lparr> dirPath = ''/tmp/gcache'', suffix = ''.cache'',
          fs = [(''/tmp/gcache/k.cache'', Readable (None :: nat fileItem option))],
          fc_stopChan_closed = False \<rparr>"
  let ?d = "\<lparr> directory = ''/tmp/cache'',
          cfs = [(''/tmp/cache/k'', (Unreadable :: nat cache_fileItem option fnode))],
          cf_stats = NewStatsCollector \<rparr>"
  have p: "keyToFilePath ?c ''k'' = ''/tmp/gcache/k.cache''"
    by (simp add: keyToFilePath_def ReplaceAll_def filepath_Join_def)
  have h1: "''k'' \<noteq> []" by simp
  have h2: "map_of (fs ?c) (keyToFilePath ?c ''k'') = Some (Readable None)" by (simp add: p)
  have h3: "corrupted id (Readable (None :: nat fileItem option))" by (simp add: corrupted_def)
  have h4: "distinct (map fst (fs ?c))" by simp
  have h5: "CHR ''/'' \<notin> set (suffix ?c)" by simp
  have h6: "map_of (cfs ?d) (filepath_Join (directory ?d) ''k'') = Some Unreadable"
    by (simp add: filepath_Join_def)
  have h7: "corrupted id (Unreadable :: nat cache_fileItem option fnode)" by (simp add: corrupted_def)
  have g: "fs (gcExpired id 120 ?c) = []"
    by (simp add: gcExpired_def HasSuffix_def baseName_def)
  from C5_corrupted_file [OF h1 h2 h3 h4 h5 h6 h7, of 120 121 120 True True]
  show ?thesis using h2 h3 h7 g by simp
qed

text \<open>
  C5 as stated fails on the file provider of package providers: Get of a key whose file
  does not parse returns the Get error, not NotFound, and the file is still there.
\<close>

theorem C5_counterexample:
  "FileCache_Get id 120 121 ''k''
     \<lparr> dirPath = ''/tmp/gcache'', suffix = ''.cache'',
       fs = [(''/tmp/gcache/k.cache'', Readable (None :: nat fileItem option))],
       fc_stopChan_closed = False \<rparr>
   = (Inl CodeCacheGetError,
      \<lparr> dirPath = ''/tmp/gcache'', suffix = ''.cache'',
        fs = [(''/tmp/gcache/k.cache'', Readable None)],
        fc_stopChan_closed = False \<rparr>)"
  by (simp add: FileCache_Get_def keyToFilePath_def ReplaceAll_def filepath_Join_def)

section \<open>The LRU scan of the in-process provider of package providers\<close>

lemma scanAccessTime_stays:
  assumes "o' \<noteq> 0" and "\<forall>(k', v') \<in> set xs. \<not> mi_accessTime v' < o'"
  shows "scanAccessTime xs (o', ko) = (o', ko)"
  using assms
  by (induction xs) (auto simp: IsZero_def Before_def)

lemma scanAccessTime_least_recent:
  assumes "(k, v) \<in> set xs"
    and "\<forall>(k', v') \<in> set xs. mi_accessTime v' \<noteq> 0 \<and> mi_accessTime v \<le> mi_accessTime v'
           \<and> (mi_accessTime v' = mi_accessTime v \<longrightarrow> k' = k)"
    and "o' = 0 \<or> mi_accessTime v < o'"
  shows "snd (scanAccessTime xs (o', ko)) = k"
  using assms
proof (induction xs arbitrary: o' ko)
  case Nil
  then show ?case by simp
next
  case (Cons x xs)
  obtain k' v' where x: "x = (k', v')" by (cases x)
  from Cons.prems(2) x have hd: "mi_accessTime v' \<noteq> 0" "mi_accessTime v \<le> mi_accessTime v'"
    "mi_accessTime v' = mi_accessTime v \<Longrightarrow> k' = k"
    and tl: "\<forall>(k', v') \<in> set xs. mi_accessTime v' \<noteq> 0 \<and> mi_accessTime v \<le> mi_accessTime v'
           \<and> (mi_accessTime v' = mi_accessTime v \<longrightarrow> k' = k)"
    by auto
  show ?case
  proof (cases "mi_accessTime v' = mi_accessTime v")
    case True
    with hd(3) have kk: "k' = k" by simp
    from Cons.prems(3) True have upd: "o' = 0 \<or> mi_accessTime v' < o'" by simp
    from tl True have "\<forall>(k'', v'') \<in> set xs. \<not> mi_accessTime v'' < mi_accessTime v'" by auto
    with hd(1) have "scanAccessTime xs (mi_accessTime v', k') = (mi_accessTime v', k')"
      by (rule scanAccessTime_stays)
    with upd x kk show ?thesis by (auto simp: IsZero_def Before_def)
  next
    case False
    with hd(2) have lt: "mi_accessTime v < mi_accessTime v'" by simp
    from False Cons.prems(1) x have in_tl: "(k, v) \<in> set xs" by auto
    show ?thesis
    proof (cases "o' = 0 \<or> mi_accessTime v' < o'")
      case True
      from Cons.IH [OF in_tl tl, of "mi_accessTime v'" k'] lt True x
      show ?thesis by (auto simp: IsZero_def Before_def)
    next
      case False
      from Cons.IH [OF in_tl tl Cons.prems(3), of ko] False x
      show ?thesis by (auto simp: IsZero_def Before_def)
    qed
  qed
qed

text \<open>
  In package providers, with MaxSize = 2 and the LRU policy, the calls Set(A); Set(B);
  Get(A); Set(C) evict B and keep A and C. The clock is past the zero instant
  and has moved on between Set(B) and Get(A); A has not expired at the Get; the order in
  which the scan visits the table is any.
\<close>

lemma MemoryCache_LRU_evicts_B:
  assumes "\<And>xs. set (rng xs) = set xs"
    and "a \<noteq> []" and "b \<noteq> []" and "c \<noteq> []" and "a \<noteq> b" and "a \<noteq> c" and "b \<noteq> c"
    and "0 < t1" and "0 < t2" and "t2 < t3"
    and "ttlA \<le> 0 \<or> t3 \<le> t1 + ttlA"
  shows "fst (MemoryCache_Get t3 a
               (snd (MemoryCache_Set rng t2 b vb ttlB
                 (snd (MemoryCache_Set rng t1 a va ttlA (NewMemoryCache 2 EvictionLRU))))))
           = Inr va
       \<and> map fst (items (snd (MemoryCache_Set rng t4 c vc ttlC
            (snd (MemoryCache_Get t3 a
               (snd (MemoryCache_Set rng t2 b vb ttlB
                 (snd (MemoryCache_Set rng t1 a va ttlA (NewMemoryCache 2 EvictionLRU))))))))))
           = [a, c]
       \<and> stats_evictions (snd (MemoryCache_Set rng t4 c vc ttlC
            (snd (MemoryCache_Get t3 a
               (snd (MemoryCache_Set rng t2 b vb ttlB
                 (snd (MemoryCache_Set rng t1 a va ttlA (NewMemoryCache 2 EvictionLRU)))))))))
           = 1"
proof -
  define ia where "ia = \<lparr> mi_key = a, mi_value = va, mi_expiration = (if ttlA > 0 then t1 + ttlA else 0),
                mi_ttl = ttlA, mi_accessTime = t1, mi_accessCount = 0, mi_createTime = t1 \<rparr>"
  define ib where "ib = \<lparr> mi_key = b, mi_value = vb, mi_expiration = (if ttlB > 0 then t2 + ttlB else 0),
                mi_ttl = ttlB, mi_accessTime = t2, mi_accessCount = 0, mi_createTime = t2 \<rparr>"
  define ia' where "ia' = ia\<lparr> mi_accessTime := t3, mi_accessCount := mi_accessCount ia + 1 \<rparr>"
  define s0 where "s0 = (NewMemoryCache 2 EvictionLRU :: 'a MemoryCache)"
  define s1 where "s1 = snd (MemoryCache_Set rng t1 a va ttlA s0)"
  define s2 where "s2 = snd (MemoryCache_Set rng t2 b vb ttlB s1)"
  define s3 where "s3 = snd (MemoryCache_Get t3 a s2)"
  define s4 where "s4 = snd (MemoryCache_Set rng t4 c vc ttlC s3)"
  have s0: "items s0 = []" "config_MaxSize s0 = 2" "config_EvictionPolicy s0 = EvictionLRU"
    "stats_evictions s0 = 0"
    by (simp_all add: s0_def NewMemoryCache_def EvictionLRU_def)
  have s1: "items s1 = [(a, ia)]" "config_MaxSize s1 = 2" "config_EvictionPolicy s1 = EvictionLRU"
    "stats_evictions s1 = 0"
    using assms(2) by (simp_all add: s1_def MemoryCache_Set_def Let_def s0 ia_def)
  have s2: "items s2 = [(a, ia), (b, ib)]" "config_MaxSize s2 = 2"
    "config_EvictionPolicy s2 = EvictionLRU" "stats_evictions s2 = 0"
    using assms(3,5) by (simp_all add: s2_def MemoryCache_Set_def Let_def s1 ib_def)
  have live: "\<not> isExpired t3 ia"
    using assms(11) by (auto simp: ia_def isExpired_def IsZero_def After_def)
  have g: "fst (MemoryCache_Get t3 a s2) = Inr va"
    using assms(2) live by (simp add: MemoryCache_Get_def s2) (simp add: ia_def)
  have s3: "items s3 = [(a, ia'), (b, ib)]" "config_MaxSize s3 = 2"
    "config_EvictionPolicy s3 = EvictionLRU" "stats_evictions s3 = 0"
    using assms(2,5) live by (simp_all add: s3_def MemoryCache_Get_def s2 ia'_def)
  have at: "mi_accessTime ib = t2" "mi_accessTime ia' = t3"
    by (simp_all add: ib_def ia'_def)
  have "snd (scanAccessTime (rng (items s3)) (0, [])) = b"
  proof (rule scanAccessTime_least_recent [where v = ib])
    show "(b, ib) \<in> set (rng (items s3))" by (simp add: assms(1) s3)
    show "\<forall>(k', v') \<in> set (rng (items s3)). mi_accessTime v' \<noteq> 0
            \<and> mi_accessTime ib \<le> mi_accessTime v'
            \<and> (mi_accessTime v' = mi_accessTime ib \<longrightarrow> k' = b)"
      using assms(9,10) by (auto simp: assms(1) s3 at)
    show "(0::int) = 0 \<or> mi_accessTime ib < 0" by simp
  qed
  then have v: "victim rng s3 = b" by (simp add: victim_def s3)
  have ev: "items (evictOne rng s3) = [(a, ia')]" "stats_evictions (evictOne rng s3) = 1"
    using assms(3,5) by (simp_all add: evictOne_def Let_def v s3)
  have "map fst (items s4) = [a, c]" and "stats_evictions s4 = 1"
    using assms(4,6,7) by (simp_all add: s4_def MemoryCache_Set_def Let_def s3 ev)
  with g show ?thesis
    unfolding s4_def s3_def s2_def s1_def s0_def by simp
qed

section \<open>The LRU policy of package cache\<close>

text \<open>
  C6, evaluated on package cache. With maxSize = 2 and the LRU policy, after
  Set(A); Set(B); Get(A); Set(C) the table holds B and C: the Get of A does not reach
  the policy, so A, the key set first, is the victim, and a later Get of A misses.
\<close>

theorem C6_cache_LRU_evicts_A:
  "fst (cache_MemoryCache_Get 300 True True ''A''
          (cache_MemoryCache_Set 200 ''B'' (AnyValue (2::nat)) 1000
            (cache_MemoryCache_Set 100 ''A'' (AnyValue 5) 1000 (cache_NewMemoryCache 2))))
     = Inr (AnyValue 5)
   \<and> map fst (data (cache_MemoryCache_Set 400 ''C'' (AnyValue (3::nat)) 1000
          (snd (cache_MemoryCache_Get 300 True True ''A''
            (cache_MemoryCache_Set 200 ''B'' (AnyValue 2) 1000
              (cache_MemoryCache_Set 100 ''A'' (AnyValue 5) 1000 (cache_NewMemoryCache 2)))))))
     = [''B'', ''C'']
   \<and> fst (cache_MemoryCache_Get 500 True True ''A''
        (cache_MemoryCache_Set 400 ''C'' (AnyValue (3::nat)) 1000
          (snd (cache_MemoryCache_Get 300 True True ''A''
            (cache_MemoryCache_Set 200 ''B'' (AnyValue 2) 1000
              (cache_MemoryCache_Set 100 ''A'' (AnyValue 5) 1000 (cache_NewMemoryCache 2)))))))
     = Inl ErrNotFound"
  by (simp add: cache_MemoryCache_Set_def cache_MemoryCache_Get_def cache_NewMemoryCache_def
      cache_evictOne_def cache_expired_def After_def Let_def NewStatsCollector_def
      IncrKeyCount_def DecrKeyCount_def IncrEvictedCount_def IncrHits_def IncrMisses_def)

section \<open>The tag index of package cache\<close>

text \<open>
  C7, evaluated on package cache. After SetWithTags(k, [t]) and a plain Set(k) the key
  is still listed under t; after the Delete of k that follows, k is gone from the store
  and still listed under t, because Delete walks the tags of the item it finds, and the
  plain Set stored an item without tags.
\<close>

theorem C7_cache_stale_tag:
  "cache_MemoryCache_GetByTag ''t''
     (cache_MemoryCache_Set 200 ''k'' (AnyValue (6::nat)) 1000
       (cache_MemoryCache_SetWithTags 100 ''k'' (AnyValue 5) [''t''] 1000 (cache_NewMemoryCache 10)))
     = [''k'']
   \<and> cache_MemoryCache_GetByTag ''t''
     (cache_MemoryCache_Delete ''k''
       (cache_MemoryCache_Set 200 ''k'' (AnyValue (6::nat)) 1000
         (cache_MemoryCache_SetWithTags 100 ''k'' (AnyValue 5) [''t''] 1000 (cache_NewMemoryCache 10))))
     = [''k'']
   \<and> data (cache_MemoryCache_Delete ''k''
       (cache_MemoryCache_Set 200 ''k'' (AnyValue (6::nat)) 1000
         (cache_MemoryCache_SetWithTags 100 ''k'' (AnyValue 5) [''t''] 1000 (cache_NewMemoryCache 10))))
     = []
   \<and> \<not> cache_MemoryCache_Has 300 ''k''
     (cache_MemoryCache_Delete ''k''
       (cache_MemoryCache_Set 200 ''k'' (AnyValue (6::nat)) 1000
         (cache_MemoryCache_SetWithTags 100 ''k'' (AnyValue 5) [''t''] 1000 (cache_NewMemoryCache 10))))"
  by (simp add: cache_MemoryCache_Set_def cache_MemoryCache_SetWithTags_def
      cache_MemoryCache_Delete_def cache_MemoryCache_GetByTag_def cache_MemoryCache_Has_def
      cache_NewMemoryCache_def Let_def NewStatsCollector_def IncrKeyCount_def DecrKeyCount_def)

section \<open>Namespaced keys\<close>

lemma originalKey_makeKey: "k \<noteq> [] \<Longrightarrow> originalKey b (makeKey b k) = Some k"
  by (simp add: originalKey_def makeKey_def)

lemma makeKey_inj_on: "inj_on (makeKey b) {k. k \<noteq> []}"
proof (rule inj_onI)
  fix x y assume x: "x \<in> {k. k \<noteq> []}" and y: "y \<in> {k. k \<noteq> []}"
    and eq: "makeKey b x = makeKey b y"
  have "Some x = originalKey b (makeKey b x)" using x by (simp add: originalKey_makeKey)
  also have "\<dots> = originalKey b (makeKey b y)" by (simp only: eq)
  also have "\<dots> = Some y" using y by (simp add: originalKey_makeKey)
  finally show "x = y" by simp
qed

lemma restoreKeys_namespaced:
  assumes "[] \<notin> fst ` set orig" and "distinct (map fst orig)"
  shows "restoreKeys b (map (\<lambda>(k, v). (makeKey b k, v)) orig) m = Some (m ++ map_of orig)"
  using assms
proof (induction orig arbitrary: m)
  case Nil
  then show ?case by simp
next
  case (Cons p orig)
  obtain k v where p: "p = (k, v)" by (cases p)
  from Cons.prems p have k: "k \<noteq> []" and notin: "k \<notin> fst ` set orig"
    and rest: "[] \<notin> fst ` set orig" "distinct (map fst orig)"
    by auto
  from notin have none: "map_of orig k = None"
    by (simp add: map_of_eq_None_iff)
  have step: "restoreKeys b (map (\<lambda>(k, v). (makeKey b k, v)) (p # orig)) m
                = restoreKeys b (map (\<lambda>(k, v). (makeKey b k, v)) orig) (m(k \<mapsto> v))"
    using p k by (simp add: originalKey_makeKey)
  have eq: "(m(k \<mapsto> v)) ++ map_of orig = m ++ map_of (p # orig)"
    using none p by (auto simp: map_add_def fun_eq_iff split: option.splits)
  show ?case
    unfolding step Cons.IH [OF rest] eq ..
qed

lemma baseCache_GetMulti_original_keys:
  assumes "keys \<noteq> []" and "[] \<notin> set keys"
    and "[] \<notin> fst ` set orig" and "distinct (map fst orig)"
    and "pGetMulti (map (makeKey b) keys) s = (Inr (map (\<lambda>(k, v). (makeKey b k, v)) orig), s')"
  shows "baseCache_GetMulti b pGetMulti keys s = (Returned (map_of orig), s')"
  using assms(1,2,5)
  by (simp add: baseCache_GetMulti_def restoreKeys_namespaced [OF assms(3,4)])

text \<open>
  C8. For every non-empty key and every namespace, the facade's key transformation is a
  function that is injective on the non-empty keys (a bijection onto the namespaced
  keys), and stripping the prefix as GetMulti does gives the original key back. So when
  the provider answers a batch with values under namespaced keys, GetMulti returns the
  same values under the caller's original keys.
\<close>

theorem C8_namespace_key_bijection:
  assumes "k \<noteq> []"
    and "keys \<noteq> []" and "[] \<notin> set keys"
    and "[] \<notin> fst ` set orig" and "distinct (map fst orig)"
    and "pGetMulti (map (makeKey b) keys) s = (Inr (map (\<lambda>(k, v). (makeKey b k, v)) orig), s')"
  shows "originalKey b (makeKey b k) = Some k
       \<and> bij_betw (makeKey b) {k. k \<noteq> []} (makeKey b ` {k. k \<noteq> []})
       \<and> baseCache_GetMulti b pGetMulti keys s = (Returned (map_of orig), s')"
proof -
  have "baseCache_GetMulti b pGetMulti keys s = (Returned (map_of orig), s')"
    using assms(2-6) by (rule baseCache_GetMulti_original_keys)
  then show ?thesis
    using originalKey_makeKey [OF assms(1)] makeKey_inj_on [of b]
    by (simp add: bij_betw_def)
qed

theorem C8_namespace_key_bijection_witness:
  "''x'' \<noteq> [] \<and> [''x'', ''y''] \<noteq> [] \<and> [] \<notin> set [''x'', ''y'']
   \<and> [] \<notin> fst ` set [(''x'', 7::nat)] \<and> distinct (map fst [(''x'', 7::nat)])
   \<and> MemoryCache_GetMulti 200 (map (makeKey \<lparr> namespace = ''app'', defaultTTL = 0 \<rparr>) [''x'', ''y''])
        (snd (MemoryCache_Set id 100 ''app:x'' (7::nat) 0 (NewMemoryCache 10 ''LRU'')))
      = (Inr [(''app:x'', 7)],
         snd (MemoryCache_GetMulti 200 [''app:x'', ''app:y'']
                (snd (MemoryCache_Set id 100 ''app:x'' (7::nat) 0 (NewMemoryCache 10 ''LRU'')))))
   \<and> originalKey \<lparr> namespace = ''app'', defaultTTL = 0 \<rparr>
        (makeKey \<lparr> namespace = ''app'', defaultTTL = 0 \<rparr> ''x'') = Some ''x''
   \<and> makeKey \<lparr> namespace = ''app'', defaultTTL = 0 \<rparr> ''x'' = ''app:x''
   \<and> fst (baseCache_GetMulti \<lparr> namespace = ''app'', defaultTTL = 0 \<rparr> (MemoryCache_GetMulti 200)
            [''x'', ''y'']
            (snd (MemoryCache_Set id 100 ''app:x'' (7::nat) 0 (NewMemoryCache 10 ''LRU''))))
      = Returned (map_of [(''x'', 7)])"
proof -
  let ?b = "\<lparr> namespace = ''app'', defaultTTL = 0 \<rparr>"
  let ?c = "snd (MemoryCache_Set id 100 ''app:x'' (7::nat) 0 (NewMemoryCache 10 ''LRU''))"
  have keys: "map (makeKey ?b) [''x'', ''y''] = [''app:x'', ''app:y'']"
    by (simp add: makeKey_def)
  have c: "items ?c = [(''app:x'', \<lparr> mi_key = ''app:x'', mi_value = 7, mi_expiration = 0, mi_ttl = 0,
               mi_accessTime = 100, mi_accessCount = 0, mi_createTime = 100 \<rparr>)]"
    by (simp add: MemoryCache_Set_def NewMemoryCache_def DefaultMemoryCacheSize_def)
  have res: "fst (MemoryCache_GetMulti 200 [''app:x'', ''app:y''] ?c) = Inr [(''app:x'', 7)]"
    by (simp add: MemoryCache_GetMulti_def MemoryCache_Get_def c isExpired_def IsZero_def
        split: prod.splits)
  have h6: "MemoryCache_GetMulti 200 (map (makeKey ?b) [''x'', ''y'']) ?c
      = (Inr (map (\<lambda>(k, v). (makeKey ?b k, v)) [(''x'', 7::nat)]),
         snd (MemoryCache_GetMulti 200 [''app:x'', ''app:y''] ?c))"
    using res by (simp add: keys makeKey_def prod_eq_iff)
  have h1: "''x'' \<noteq> []" by simp
  have h2: "[''x'', ''y''] \<noteq> []" by simp
  have h3: "[] \<notin> set [''x'', ''y'']" by simp
  have h4: "[] \<notin> fst ` set [(''x'', 7::nat)]" by simp
  have h5: "distinct (map fst [(''x'', 7::nat)])" by simp
  from C8_namespace_key_bijection
    [where pGetMulti = "MemoryCache_GetMulti 200" and b = ?b and s = ?c, OF h1 h2 h3 h4 h5 h6]
  show ?thesis using res by (simp add: keys makeKey_def prod_eq_iff)
qed

section \<open>Close\<close>

text \<open>
  C9 (amended). For the memory and file providers of gcache, the first Close() of a
  provider closes its stop channel and returns no error (the memory provider also
  empties its table), after which the janitor goroutine returns when it selects the
  stop channel. Close() is not idempotent: a second Close() of the same provider closes
  the closed channel again, which is a run-time panic.
\<close>

theorem C9_Close_once:
  assumes "\<not> stopChan_closed c" and "\<not> fc_stopChan_closed fc"
  shows "MemoryCache_Close c = Inr (None, c\<lparr> stopChan_closed := True, items := [] \<rparr>)
       \<and> janitor_round Stop c = Some c
       \<and> janitor_round Stop (c\<lparr> stopChan_closed := True, items := [] \<rparr>) = None
       \<and> MemoryCache_Close (c\<lparr> stopChan_closed := True, items := [] \<rparr>) = Inl CloseOfClosedChannel
       \<and> FileCache_Close fc = Inr (None, fc\<lparr> fc_stopChan_closed := True \<rparr>)
       \<and> FileCache_Close (fc\<lparr> fc_stopChan_closed := True \<rparr>) = Inl CloseOfClosedChannel"
  using assms by (simp add: MemoryCache_Close_def FileCache_Close_def janitor_round_def)

theorem C9_Close_once_witness:
  "\<not> stopChan_closed (NewMemoryCache 10 ''LRU'' :: nat MemoryCache)
   \<and> \<not> fc_stopChan_closed \<lparr> dirPath = ''/tmp/gcache'', suffix = ''.cache'',
                             fs = ([] :: (string \<times> string fnode) list), fc_stopChan_closed = False \<rparr>
   \<and> MemoryCache_Close (NewMemoryCache 10 ''LRU'' :: nat MemoryCache)
        = Inr (None, (NewMemoryCache 10 ''LRU'')\<lparr> stopChan_closed := True, items := [] \<rparr>)
   \<and> MemoryCache_Close ((NewMemoryCache 10 ''LRU'' :: nat MemoryCache)\<lparr> stopChan_closed := True, items := [] \<rparr>)
        = Inl CloseOfClosedChannel
   \<and> FileCache_Close \<lparr> dirPath = ''/tmp/gcache'', suffix = ''.cache'',
                        fs = ([] :: (string \<times> string fnode) list), fc_stopChan_closed = False \<rparr>
        = Inr (None, \<lparr> dirPath = ''/tmp/gcache'', suffix = ''.cache'',
                        fs = [], fc_stopChan_closed = True \<rparr>)
   \<and> FileCache_Close \<lparr> dirPath = ''/tmp/gcache'', suffix = ''.cache'',
                        fs = ([] :: (string \<times> string fnode) list), fc_stopChan_closed = True \<rparr>
        = Inl CloseOfClosedChannel"
proof -
  have h1: "\<not> stopChan_closed (NewMemoryCache 10 ''LRU'' :: nat MemoryCache)"
    by (simp add: NewMemoryCache_def)
  have h2: "\<not> fc_stopChan_closed \<lparr> dirPath = ''/tmp/gcache'', suffix = ''.cache'',
                             fs = ([] :: (string \<times> string fnode) list), fc_stopChan_closed = False \<rparr>"
    by simp
  from C9_Close_once [OF h1 h2] show ?thesis using h1 by simp
qed

text \<open>
  C9 as stated fails on the memory provider: the second Close() of a new provider does
  not return.
\<close>

theorem C9_counterexample:
  "MemoryCache_Close (NewMemoryCache 10 ''LRU'' :: nat MemoryCache)
     = Inr (None, (NewMemoryCache 10 ''LRU'')\<lparr> stopChan_closed := True, items := [] \<rparr>)
   \<and> MemoryCache_Close ((NewMemoryCache 10 ''LRU'' :: nat MemoryCache)\<lparr> stopChan_closed := True, items := [] \<rparr>)
     = Inl CloseOfClosedChannel"
  by (simp add: MemoryCache_Close_def NewMemoryCache_def)

section \<open>GetTTL\<close>














end
